theory Spec2Isabelle
  imports Complex_Main
begin

section \<open>The training loop of Part 3 (Training Neural Networks)\<close>

text \<open>
  The notebook's last training cell is

  \<^verbatim>\<open>
  epochs = 5
  for e in range(epochs):
      running_loss = 0
      for images, labels in trainloader:
          images = images.view(images.shape[0], -1)
          optimizer.zero_grad()
          output = model(images)
          loss = criterion(output, labels)
          loss.backward()
          optimizer.step()
          running_loss += loss.item()
      else:
          print(f"Training loss: {running_loss/len(trainloader)}")
  \<close>

  The calls into the framework (\<open>view\<close>, \<open>zero_grad\<close>, the model's forward pass, the
  criterion, \<open>backward\<close>, \<open>step\<close>, \<open>item\<close>) are taken as parameters: a record of
  total functions over an arbitrary state \<open>'s\<close> that holds whatever the framework
  mutates (parameters, gradients, optimizer state).  Tensors are values of an
  arbitrary type \<open>'t\<close>, labels of \<open>'y\<close>.  Python floats are idealised as reals.
  The loop itself (its order, the accumulator, the division and the
  \<open>for ... else\<close>) is translated statement by statement.
\<close>

text \<open>
  The exceptions that the modelled code can raise.  A \<open>RuntimeError\<close> of
  \<open>load_state_dict\<close> carries the list of its messages (see Part 6 below); a size
  mismatch names the key, the shape in the checkpoint and the shape in the model.
  \<open>ShapeMismatch\<close> is the specification's name for a batch whose width is not the
  width a layer expects; it carries both widths.
\<close>

datatype load_msg =
    MissingKeys "string list"
  | UnexpectedKeys "string list"
  | SizeMismatch string "nat list" "nat list"

datatype py_error =
    ZeroDivisionError
  | FileNotFoundError string
  | KeyError string
  | TypeError
  | RuntimeError "load_msg list"
  | ShapeMismatch nat nat

datatype action = Flatten | ZeroGrad | Forward | Loss | Backward | Step | Accumulate

record ('s, 't, 'y) framework =
  view :: "'t \<Rightarrow> 't"
  zero_grad :: "'s \<Rightarrow> 's"
  model :: "'s \<Rightarrow> 't \<Rightarrow> 't"
  criterion :: "'t \<Rightarrow> 'y \<Rightarrow> 't"
  backward :: "'t \<Rightarrow> 's \<Rightarrow> 's"
  step :: "'s \<Rightarrow> 's"
  item :: "'t \<Rightarrow> real"

text \<open>
  The state of one run: the framework's state, the accumulator \<open>running_loss\<close>,
  the lines printed so far, and the sequence of statements executed so far
  (\<open>trace\<close>, a ghost field that every statement of the loop body extends by its
  own tag).
\<close>

record 's run =
  world :: 's
  running_loss :: real
  printed :: "real list"
  trace :: "action list"

definition do_view :: "('s, 't, 'y) framework \<Rightarrow> 't \<Rightarrow> 's run \<Rightarrow> 't \<times> 's run" where
  "do_view fw images r = (view fw images, r\<lparr>trace := trace r @ [Flatten]\<rparr>)"

definition do_zero_grad :: "('s, 't, 'y) framework \<Rightarrow> 's run \<Rightarrow> 's run" where
  "do_zero_grad fw r = r\<lparr>world := zero_grad fw (world r), trace := trace r @ [ZeroGrad]\<rparr>"

definition do_model :: "('s, 't, 'y) framework \<Rightarrow> 't \<Rightarrow> 's run \<Rightarrow> 't \<times> 's run" where
  "do_model fw images r = (model fw (world r) images, r\<lparr>trace := trace r @ [Forward]\<rparr>)"

definition do_criterion :: "('s, 't, 'y) framework \<Rightarrow> 't \<Rightarrow> 'y \<Rightarrow> 's run \<Rightarrow> 't \<times> 's run" where
  "do_criterion fw out labels r = (criterion fw out labels, r\<lparr>trace := trace r @ [Loss]\<rparr>)"

definition do_backward :: "('s, 't, 'y) framework \<Rightarrow> 't \<Rightarrow> 's run \<Rightarrow> 's run" where
  "do_backward fw loss r = r\<lparr>world := backward fw loss (world r), trace := trace r @ [Backward]\<rparr>"

definition do_step :: "('s, 't, 'y) framework \<Rightarrow> 's run \<Rightarrow> 's run" where
  "do_step fw r = r\<lparr>world := step fw (world r), trace := trace r @ [Step]\<rparr>"

definition do_accumulate :: "('s, 't, 'y) framework \<Rightarrow> 't \<Rightarrow> 's run \<Rightarrow> 's run" where
  "do_accumulate fw loss r =
     r\<lparr>running_loss := running_loss r + item fw loss, trace := trace r @ [Accumulate]\<rparr>"

text \<open>The body of the inner loop, for one batch \<open>(images, labels)\<close>.\<close>

definition train_batch :: "('s, 't, 'y) framework \<Rightarrow> 's run \<Rightarrow> 't \<times> 'y \<Rightarrow> 's run" where
  "train_batch fw r b =
     (case b of (images, labels) \<Rightarrow>
        (case do_view fw images r of (images', r1) \<Rightarrow>
           let r2 = do_zero_grad fw r1 in
           (case do_model fw images' r2 of (out, r3) \<Rightarrow>
              (case do_criterion fw out labels r3 of (loss, r4) \<Rightarrow>
                 let r5 = do_backward fw loss r4;
                     r6 = do_step fw r5
                 in do_accumulate fw loss r6))))"

text \<open>
  One pass of the outer loop: \<open>running_loss = 0\<close>, the inner loop over
  \<open>trainloader\<close>, then the \<open>else\<close> branch (the inner loop has no \<open>break\<close>, so it
  always runs), whose division raises when \<open>len(trainloader)\<close> is zero.
\<close>

definition train_epoch ::
  "('s, 't, 'y) framework \<Rightarrow> ('t \<times> 'y) list \<Rightarrow> 's run \<Rightarrow> py_error + 's run" where
  "train_epoch fw trainloader r =
     (let r0 = r\<lparr>running_loss := 0\<rparr>;
          r1 = foldl (train_batch fw) r0 trainloader
      in if length trainloader = 0 then Inl ZeroDivisionError
         else Inr (r1\<lparr>printed := printed r1 @ [running_loss r1 / real (length trainloader)]\<rparr>))"

text \<open>\<open>for e in range(epochs)\<close>: an exception ends the run.\<close>

fun train ::
  "('s, 't, 'y) framework \<Rightarrow> nat \<Rightarrow> ('t \<times> 'y) list \<Rightarrow> 's run \<Rightarrow> py_error + 's run" where
  "train fw 0 trainloader r = Inr r"
| "train fw (Suc epochs) trainloader r =
     (case train_epoch fw trainloader r of
        Inl e \<Rightarrow> Inl e
      | Inr r' \<Rightarrow> train fw epochs trainloader r')"

subsection \<open>What one batch and one epoch compute\<close>

text \<open>
  The effect of one batch on the framework's state and the scalar it adds to the
  accumulator, written as plain compositions of the framework's functions; they
  are used to state what the loop prints.
\<close>

definition batch_loss :: "('s, 't, 'y) framework \<Rightarrow> 's \<Rightarrow> 't \<times> 'y \<Rightarrow> 't" where
  "batch_loss fw w b = criterion fw (model fw (zero_grad fw w) (view fw (fst b))) (snd b)"

definition batch_world :: "('s, 't, 'y) framework \<Rightarrow> 's \<Rightarrow> 't \<times> 'y \<Rightarrow> 's" where
  "batch_world fw w b = step fw (backward fw (batch_loss fw w b) (zero_grad fw w))"

fun epoch_losses :: "('s, 't, 'y) framework \<Rightarrow> 's \<Rightarrow> ('t \<times> 'y) list \<Rightarrow> real list" where
  "epoch_losses fw w [] = []"
| "epoch_losses fw w (b # bs) =
     item fw (batch_loss fw w b) # epoch_losses fw (batch_world fw w b) bs"

definition epoch_world :: "('s, 't, 'y) framework \<Rightarrow> ('t \<times> 'y) list \<Rightarrow> 's \<Rightarrow> 's" where
  "epoch_world fw trainloader w = foldl (batch_world fw) w trainloader"

text \<open>The statements of one pass through the loop body, in the order of the source.\<close>

definition batch_actions :: "action list" where
  "batch_actions = [Flatten, ZeroGrad, Forward, Loss, Backward, Step, Accumulate]"

text \<open>A framework whose functions do nothing, over a state with one value; used for
  concrete runs.\<close>

definition idle :: "(unit, real, unit) framework" where
  "idle = \<lparr>view = (\<lambda>t. t), zero_grad = (\<lambda>s. s), model = (\<lambda>s t. t),
           criterion = (\<lambda>t y. t), backward = (\<lambda>t s. s), step = (\<lambda>s. s), item = (\<lambda>t. t)\<rparr>"

definition fresh :: "unit run" where
  "fresh = \<lparr>world = (), running_loss = 0, printed = [], trace = []\<rparr>"

section \<open>Tensors, linear layers and the network\<close>

text \<open>
  A tensor is its shape and its entries in row-major order.  Entries (32-bit floats in
  the framework) are idealised as reals.
\<close>

record tensor =
  shape :: "nat list"
  data :: "real list"

text \<open>
  \<open>nn.Linear(in_features, out_features)\<close>: a weight of shape
  \<open>[out_features, in_features]\<close> and a bias of shape \<open>[out_features]\<close>, as the
  shapes in the notebook's recorded error message show.  The framework draws the
  initial entries at random; the draw is an argument here: a function from the
  position of an entry to its value.
\<close>

record Linear =
  in_features :: nat
  out_features :: nat
  weight :: tensor
  bias :: tensor

definition fresh_tensor :: "nat list \<Rightarrow> (nat \<Rightarrow> real) \<Rightarrow> tensor" where
  "fresh_tensor shp draw = \<lparr>shape = shp, data = map draw [0..<prod_list shp]\<rparr>"

definition Linear_init :: "nat \<Rightarrow> nat \<Rightarrow> (nat \<Rightarrow> real) \<Rightarrow> (nat \<Rightarrow> real) \<Rightarrow> Linear" where
  "Linear_init n_in n_out draw_w draw_b =
     \<lparr>in_features = n_in, out_features = n_out,
      weight = fresh_tensor [n_out, n_in] draw_w,
      bias = fresh_tensor [n_out] draw_b\<rparr>"

text \<open>Python's \<open>str(i)\<close> for a non-negative integer: its decimal digits.\<close>

fun str_nat :: "nat \<Rightarrow> string" where
  "str_nat n =
     (if n < 10 then [char_of (48 + n)]
      else str_nat (n div 10) @ [char_of (48 + n mod 10)])"

declare str_nat.simps [simp del]

definition hidden_prefix :: "nat \<Rightarrow> string" where
  "hidden_prefix i = ''hidden_layers.'' @ str_nat i @ ''.''"

text \<open>
  Modelled from the spec: \<open>fc_model.Network(input_size, output_size, hidden_layers)\<close>,
  whose file is not part of the sources.  Section 3 of the specification and the
  notebook's printed model give its structure: a list \<open>hidden_layers\<close> of linear
  layers, layer \<open>i\<close> mapping the previous width (the input width for \<open>i = 0\<close>) to
  \<open>hidden_layers[i]\<close>; a linear layer \<open>output\<close> from the last hidden width (the input
  width when there is none) to the output width; dropout with \<open>p = 0.5\<close>; a new
  module is in training mode.  The random initial entries are the argument
  \<open>draw\<close>, indexed by the parameter's key.
\<close>

record Network =
  hidden_layers :: "Linear list"
  "output" :: Linear
  drop_p :: real
  training :: bool

fun init_layers :: "(string \<Rightarrow> nat \<Rightarrow> real) \<Rightarrow> nat \<Rightarrow> nat \<Rightarrow> nat list \<Rightarrow> Linear list" where
  "init_layers draw i n_in [] = []"
| "init_layers draw i n_in (h # hs) =
     Linear_init n_in h (draw (hidden_prefix i @ ''weight'')) (draw (hidden_prefix i @ ''bias''))
       # init_layers draw (Suc i) h hs"

text \<open>
  Modelled from the spec: the constructor of \<open>fc_model.Network\<close>.  Construction does
  not fail for an empty list of hidden sizes (section 4.1).
\<close>

definition Network_init :: "nat \<Rightarrow> nat \<Rightarrow> nat list \<Rightarrow> (string \<Rightarrow> nat \<Rightarrow> real) \<Rightarrow> Network" where
  "Network_init input_size output_size hs draw =
     \<lparr>hidden_layers = init_layers draw 0 input_size hs,
      output = Linear_init (last (input_size # hs)) output_size
                 (draw ''output.weight'') (draw ''output.bias''),
      drop_p = 1 / 2,
      training = True\<rparr>"

definition eval_mode :: "Network \<Rightarrow> Network" where
  "eval_mode m = m\<lparr>training := False\<rparr>"

definition train_mode :: "Network \<Rightarrow> Network" where
  "train_mode m = m\<lparr>training := True\<rparr>"

text \<open>
  A network has the architecture \<open>(input_size, output_size, hs)\<close> when its layers
  have the widths and tensor shapes that the constructor gives them; the entries are
  arbitrary (training changes them, never the shapes).
\<close>

definition wf_tensor :: "nat list \<Rightarrow> tensor \<Rightarrow> bool" where
  "wf_tensor shp t \<longleftrightarrow> shape t = shp \<and> length (data t) = prod_list shp"

definition is_Linear :: "nat \<Rightarrow> nat \<Rightarrow> Linear \<Rightarrow> bool" where
  "is_Linear n_in n_out l \<longleftrightarrow>
     in_features l = n_in \<and> out_features l = n_out
     \<and> wf_tensor [n_out, n_in] (weight l) \<and> wf_tensor [n_out] (bias l)"

fun are_layers :: "nat \<Rightarrow> nat list \<Rightarrow> Linear list \<Rightarrow> bool" where
  "are_layers n_in [] [] = True"
| "are_layers n_in (h # hs) (l # ls) = (is_Linear n_in h l \<and> are_layers h hs ls)"
| "are_layers n_in [] (l # ls) = False"
| "are_layers n_in (h # hs) [] = False"

definition has_arch :: "nat \<Rightarrow> nat \<Rightarrow> nat list \<Rightarrow> Network \<Rightarrow> bool" where
  "has_arch input_size output_size hs m \<longleftrightarrow>
     are_layers input_size hs (hidden_layers m)
     \<and> is_Linear (last (input_size # hs)) output_size (output m)"

section \<open>State dictionaries and checkpoints of Part 6 (Saving and Loading Models)\<close>

text \<open>
  \<open>model.state_dict()\<close> is an ordered dictionary; the notebook prints its keys for
  three hidden layers as \<open>hidden_layers.0.weight\<close>, \<open>hidden_layers.0.bias\<close>, ...,
  \<open>output.weight\<close>, \<open>output.bias\<close>.  It is an association list here, in that order.
\<close>

type_synonym state_dict = "(string \<times> tensor) list"

definition Linear_state :: "string \<Rightarrow> Linear \<Rightarrow> state_dict" where
  "Linear_state prefix l = [(prefix @ ''weight'', weight l), (prefix @ ''bias'', bias l)]"

fun layers_state :: "nat \<Rightarrow> Linear list \<Rightarrow> state_dict" where
  "layers_state i [] = []"
| "layers_state i (l # ls) = Linear_state (hidden_prefix i) l @ layers_state (Suc i) ls"

definition state_dict :: "Network \<Rightarrow> state_dict" where
  "state_dict m = layers_state 0 (hidden_layers m) @ Linear_state ''output.'' (output m)"

text \<open>
  \<open>model.load_state_dict(state_dict)\<close> is the framework's, called with its default
  \<open>strict=True\<close>.  The notebook records what it does: cell 9 returns
  \<open><All keys matched successfully>\<close>; cell 10 raises one \<open>RuntimeError\<close> whose message
  lists a size mismatch for seven of the eight parameters, in the order of the state
  dictionary, each with the shape in the checkpoint and the shape in the model; the
  traceback shows the \<open>raise\<close> at the end of \<open>load_state_dict\<close>, under
  \<open>if len(error_msgs) > 0\<close>, followed by the normal return of the missing and
  unexpected keys.  So the module's own parameters are visited in the order of its
  state dictionary, and the visit does not stop at the first mismatch.  For each
  parameter, as the framework does it: when the key is stored with the same shape the
  stored entries are copied into the parameter, in place (\<open>param.copy_\<close>); when it is
  stored with another shape the parameter is left as it is and a size-mismatch message
  is collected; when it is not stored the key is collected as missing.  Stored keys
  that the module's state dictionary does not have are unexpected.  The result is the
  module as the visit left it, together with the raised error or the normal return.
\<close>

definition load_param ::
  "state_dict \<Rightarrow> string \<Rightarrow> tensor \<Rightarrow> tensor \<times> load_msg list \<times> string list" where
  "load_param sd key param =
     (case map_of sd key of
        None \<Rightarrow> (param, [], [key])
      | Some input_param \<Rightarrow>
          if shape input_param \<noteq> shape param
          then (param, [SizeMismatch key (shape input_param) (shape param)], [])
          else (param\<lparr>data := data input_param\<rparr>, [], []))"

definition load_Linear ::
  "state_dict \<Rightarrow> string \<Rightarrow> Linear \<Rightarrow> Linear \<times> load_msg list \<times> string list" where
  "load_Linear sd prefix l =
     (case load_param sd (prefix @ ''weight'') (weight l) of (w, e1, m1) \<Rightarrow>
      case load_param sd (prefix @ ''bias'') (bias l) of (b, e2, m2) \<Rightarrow>
        (l\<lparr>weight := w, bias := b\<rparr>, e1 @ e2, m1 @ m2))"

fun load_layers ::
  "state_dict \<Rightarrow> nat \<Rightarrow> Linear list \<Rightarrow> Linear list \<times> load_msg list \<times> string list" where
  "load_layers sd i [] = ([], [], [])"
| "load_layers sd i (l # ls) =
     (case load_Linear sd (hidden_prefix i) l of (l', e, m) \<Rightarrow>
      case load_layers sd (Suc i) ls of (ls', es, ms) \<Rightarrow>
        (l' # ls', e @ es, m @ ms))"

definition load_state_dict :: "Network \<Rightarrow> state_dict \<Rightarrow> Network \<times> (py_error + unit)" where
  "load_state_dict m sd =
     (case load_layers sd 0 (hidden_layers m) of (hl, e1, m1) \<Rightarrow>
      case load_Linear sd ''output.'' (output m) of (out, e2, m2) \<Rightarrow>
        let missing_keys = m1 @ m2;
            unexpected_keys = filter (\<lambda>k. k \<notin> set (map fst (state_dict m))) (map fst sd);
            error_msgs =
              (if missing_keys \<noteq> [] then [MissingKeys missing_keys] else []) @
              (if unexpected_keys \<noteq> [] then [UnexpectedKeys unexpected_keys] else []) @
              e1 @ e2
        in (m\<lparr>hidden_layers := hl, output := out\<rparr>,
            if error_msgs \<noteq> [] then Inl (RuntimeError error_msgs) else Inr ()))"

text \<open>
  The checkpoint of cell 11 is a Python dictionary with four entries; its values are
  integers, a list of integers and a state dictionary.  Widths are natural numbers.

  \<^verbatim>\<open>
  checkpoint = {'input_size': 784,
                'output_size': 10,
                'hidden_layers': [each.out_features for each in model.hidden_layers],
                'state_dict': model.state_dict()}
  torch.save(checkpoint, 'checkpoint.pth')
  \<close>
\<close>

datatype pyval = PyInt nat | PyList "nat list" | PyStateDict state_dict

type_synonym pydict = "(string \<times> pyval) list"

definition checkpoint :: "Network \<Rightarrow> pydict" where
  "checkpoint m =
     [(''input_size'', PyInt 784),
      (''output_size'', PyInt 10),
      (''hidden_layers'', PyList (map out_features (hidden_layers m))),
      (''state_dict'', PyStateDict (state_dict m))]"

text \<open>Files: \<open>torch.save\<close> writes the object under the path, \<open>torch.load\<close> reads it
  back unchanged or fails when there is no such file.\<close>

definition torch_save :: "pydict \<Rightarrow> string \<Rightarrow> (string \<rightharpoonup> pydict) \<Rightarrow> (string \<rightharpoonup> pydict)" where
  "torch_save obj path fs = fs(path \<mapsto> obj)"

definition torch_load :: "(string \<rightharpoonup> pydict) \<Rightarrow> string \<Rightarrow> py_error + pydict" where
  "torch_load fs path = (case fs path of None \<Rightarrow> Inl (FileNotFoundError path) | Some obj \<Rightarrow> Inr obj)"

definition getitem :: "pydict \<Rightarrow> string \<Rightarrow> py_error + pyval" where
  "getitem d k = (case map_of d k of None \<Rightarrow> Inl (KeyError k) | Some v \<Rightarrow> Inr v)"

text \<open>The constructor called on Python values: anything but two integers and a list
  of integers is a type error.\<close>

definition Network_call :: "pyval \<Rightarrow> pyval \<Rightarrow> pyval \<Rightarrow> (string \<Rightarrow> nat \<Rightarrow> real) \<Rightarrow> py_error + Network" where
  "Network_call a b c draw =
     (case (a, b, c) of
        (PyInt input_size, PyInt output_size, PyList hs) \<Rightarrow>
          Inr (Network_init input_size output_size hs draw)
      | _ \<Rightarrow> Inl TypeError)"

text \<open>
  \<^verbatim>\<open>
  def load_checkpoint(filepath):
      checkpoint = torch.load(filepath)
      model = fc_model.Network(checkpoint['input_size'],
                               checkpoint['output_size'],
                               checkpoint['hidden_layers'])
      model.load_state_dict(checkpoint['state_dict'])
      return model
  \<close>
  The arguments are the file system and the random draw of the constructor.
\<close>

definition load_checkpoint ::
  "(string \<Rightarrow> nat \<Rightarrow> real) \<Rightarrow> (string \<rightharpoonup> pydict) \<Rightarrow> string \<Rightarrow> py_error + Network" where
  "load_checkpoint draw fs filepath =
     (case torch_load fs filepath of Inl e \<Rightarrow> Inl e | Inr ckpt \<Rightarrow>
      case getitem ckpt ''input_size'' of Inl e \<Rightarrow> Inl e | Inr a \<Rightarrow>
      case getitem ckpt ''output_size'' of Inl e \<Rightarrow> Inl e | Inr b \<Rightarrow>
      case getitem ckpt ''hidden_layers'' of Inl e \<Rightarrow> Inl e | Inr c \<Rightarrow>
      case Network_call a b c draw of Inl e \<Rightarrow> Inl e | Inr m \<Rightarrow>
      case getitem ckpt ''state_dict'' of Inl e \<Rightarrow> Inl e | Inr d \<Rightarrow>
      (case d of
         PyStateDict sd \<Rightarrow>
           (case load_state_dict m sd of
              (m', Inl e) \<Rightarrow> Inl e
            | (m', Inr u) \<Rightarrow> Inr m')
       | _ \<Rightarrow> Inl TypeError))"


subsection \<open>What loading does to each parameter\<close>

text \<open>
  The outcome of \<open>load_param\<close> for one entry \<open>(key, tensor)\<close> of the module's own
  state dictionary, component by component, and the messages of a whole load; they
  are used to state what \<open>load_state_dict\<close> leaves behind.
\<close>

definition loaded :: "state_dict \<Rightarrow> string \<times> tensor \<Rightarrow> string \<times> tensor" where
  "loaded sd kt = (fst kt, fst (load_param sd (fst kt) (snd kt)))"

definition size_errors :: "state_dict \<Rightarrow> string \<times> tensor \<Rightarrow> load_msg list" where
  "size_errors sd kt = fst (snd (load_param sd (fst kt) (snd kt)))"

definition missing :: "state_dict \<Rightarrow> string \<times> tensor \<Rightarrow> string list" where
  "missing sd kt = snd (snd (load_param sd (fst kt) (snd kt)))"

definition load_msgs :: "Network \<Rightarrow> state_dict \<Rightarrow> load_msg list" where
  "load_msgs m sd =
     (if concat (map (missing sd) (state_dict m)) \<noteq> []
      then [MissingKeys (concat (map (missing sd) (state_dict m)))] else []) @
     (if filter (\<lambda>k. k \<notin> set (map fst (state_dict m))) (map fst sd) \<noteq> []
      then [UnexpectedKeys (filter (\<lambda>k. k \<notin> set (map fst (state_dict m))) (map fst sd))]
      else []) @
     concat (map (size_errors sd) (state_dict m))"

section \<open>The forward pass\<close>

text \<open>
  Modelled from the spec: \<open>Network.forward\<close> of \<open>fc_model\<close>, whose file is not part
  of the sources.  Section 4.1 of the specification gives it: for each hidden layer in
  order the affine map, then \<open>ReLU(x) = max(0, x)\<close> on every entry, then -- only in
  training mode -- dropout, which zeroes an activation or rescales it by
  \<open>1 / (1 - p)\<close>; then the output layer's affine map; then \<open>log_softmax\<close> over each
  row.  Part 3 builds the same pipeline without dropout
  (\<open>nn.Sequential(nn.Linear(784, 128), nn.ReLU(), nn.Linear(128, 64), nn.ReLU(),
  nn.Linear(64, 10), nn.LogSoftmax(dim=1))\<close>).

  A batch is the list of its rows.  The affine map of a layer is
  \<open>y\<^sub>i = (\<Sum>j. x\<^sub>j * W[i, j]) + b\<^sub>i\<close>, with \<open>W\<close> stored row-major; a row whose
  length is not the layer's \<open>in_features\<close> is an error, so that for a layer whose
  tensors have the lengths of their shapes (\<open>is_Linear\<close>) no entry is read out of
  range.  The random choices of
  dropout are the argument \<open>keep\<close>: \<open>keep l r c\<close> tells whether the activation in
  row \<open>r\<close>, column \<open>c\<close> after hidden layer \<open>l\<close> survives.  Entries are reals, so
  \<open>log_softmax\<close> is \<open>x\<^sub>i - ln (\<Sum>k. exp x\<^sub>k)\<close>.
\<close>

definition relu :: "real \<Rightarrow> real" where
  "relu v = max 0 v"

definition affine_row :: "Linear \<Rightarrow> real list \<Rightarrow> real list" where
  "affine_row l x =
     map (\<lambda>i. (\<Sum>j\<leftarrow>[0..<in_features l]. x ! j * data (weight l) ! (i * in_features l + j))
               + data (bias l) ! i)
       [0..<out_features l]"

definition Linear_call :: "Linear \<Rightarrow> real list list \<Rightarrow> py_error + real list list" where
  "Linear_call l x =
     (case filter (\<lambda>row. length row \<noteq> in_features l) x of
        [] \<Rightarrow> Inr (map (affine_row l) x)
      | row # rest \<Rightarrow> Inl (ShapeMismatch (length row) (in_features l)))"

text \<open>
  Modelled from the spec: dropout, applied only when \<open>tr\<close> (training mode) holds: an
  activation is zeroed or divided by \<open>1 - p\<close>.
\<close>

definition dropout :: "real \<Rightarrow> bool \<Rightarrow> (nat \<Rightarrow> nat \<Rightarrow> bool) \<Rightarrow> real list list \<Rightarrow> real list list" where
  "dropout p tr keep x =
     (if tr
      then map (\<lambda>(r, row). map (\<lambda>(c, v). if keep r c then v / (1 - p) else 0) (enumerate 0 row))
             (enumerate 0 x)
      else x)"

fun hidden_forward ::
  "real \<Rightarrow> bool \<Rightarrow> (nat \<Rightarrow> nat \<Rightarrow> nat \<Rightarrow> bool) \<Rightarrow> nat \<Rightarrow> Linear list \<Rightarrow> real list list
     \<Rightarrow> py_error + real list list" where
  "hidden_forward p tr keep i [] x = Inr x"
| "hidden_forward p tr keep i (l # ls) x =
     (case Linear_call l x of
        Inl e \<Rightarrow> Inl e
      | Inr y \<Rightarrow> hidden_forward p tr keep (Suc i) ls (dropout p tr (keep i) (map (map relu) y)))"

definition log_softmax :: "real list \<Rightarrow> real list" where
  "log_softmax row = map (\<lambda>v. v - ln (\<Sum>u\<leftarrow>row. exp u)) row"

text \<open>
  Modelled from the spec: \<open>Network.forward\<close>.  The mode is the network's flag
  \<open>training\<close>, the dropout probability its \<open>drop_p\<close>.
\<close>

definition forward ::
  "Network \<Rightarrow> (nat \<Rightarrow> nat \<Rightarrow> nat \<Rightarrow> bool) \<Rightarrow> real list list \<Rightarrow> py_error + real list list" where
  "forward m keep x =
     (case hidden_forward (drop_p m) (training m) keep 0 (hidden_layers m) x of
        Inl e \<Rightarrow> Inl e
      | Inr h \<Rightarrow>
          (case Linear_call (output m) h of
             Inl e \<Rightarrow> Inl e
           | Inr z \<Rightarrow> Inr (map log_softmax z)))"

text \<open>A small network (one input, one hidden unit, two outputs) for concrete runs.\<close>

definition tiny :: Network where
  "tiny =
     \<lparr>hidden_layers =
        [\<lparr>in_features = 1, out_features = 1,
          weight = \<lparr>shape = [1, 1], data = [1]\<rparr>, bias = \<lparr>shape = [1], data = [0]\<rparr>\<rparr>],
      output =
        \<lparr>in_features = 1, out_features = 2,
         weight = \<lparr>shape = [2, 1], data = [1, 0]\<rparr>, bias = \<lparr>shape = [2], data = [0, 0]\<rparr>\<rparr>,
      drop_p = 1 / 2,
      training = True\<rparr>"

text \<open>
  The model of Part 3, \<open>nn.Sequential(nn.Linear(784, 128), nn.ReLU(), nn.Linear(128, 64),
  nn.ReLU(), nn.Linear(64, 10), nn.LogSoftmax(dim=1))\<close>, for any three linear layers.
\<close>

definition sequential :: "Linear \<Rightarrow> Linear \<Rightarrow> Linear \<Rightarrow> real list list \<Rightarrow> py_error + real list list" where
  "sequential l1 l2 l3 x =
     (case Linear_call l1 x of Inl e \<Rightarrow> Inl e | Inr a \<Rightarrow>
      case Linear_call l2 (map (map relu) a) of Inl e \<Rightarrow> Inl e | Inr b \<Rightarrow>
      case Linear_call l3 (map (map relu) b) of Inl e \<Rightarrow> Inl e | Inr z \<Rightarrow>
        Inr (map log_softmax z))"

text \<open>Two random draws, constant everywhere, for concrete runs.\<close>

definition zero_draw :: "string \<Rightarrow> nat \<Rightarrow> real" where
  "zero_draw k j = 0"

definition five_draw :: "string \<Rightarrow> nat \<Rightarrow> real" where
  "five_draw k j = 5"

text \<open>A network with the sizes of \<open>tiny\<close> but three hidden units, freshly constructed.\<close>

definition wide :: Network where
  "wide = Network_init 1 2 [3] five_draw"

section \<open>The forward pass in single precision\<close>





















section \<open>Gradient accumulation\<close>

text \<open>
  Modelled from the spec: the framework's gradient bookkeeping, which is not code of
  the sources.  Section 4.2 of the specification ("gradient accumulation is additive
  across calls") and the notebook's own prose ("When you do multiple backwards passes
  with the same parameters, the gradients are accumulated"; the comment "Clear the
  gradients, do this because gradients are accumulated"; the printed \<open>None\<close> before
  the first backward pass) describe it: a parameter's \<open>.grad\<close> is absent until the
  first backward pass; \<open>loss.backward()\<close> adds the gradient of this pass to it, entry
  by entry; \<open>optimizer.zero_grad()\<close> sets the entries of a present \<open>.grad\<close> to zero.
  The gradient that a pass computes is the argument \<open>dloss\<close>, a function of the current
  parameters and the batch.

  \<^verbatim>\<open>
  optimizer.zero_grad()
  output = model(images)
  loss = criterion(output, labels)
  loss.backward()
  \<close>
\<close>

record 'p autograd =
  params :: 'p
  grad :: "real list option"

text \<open>Modelled from the spec: \<open>optimizer.zero_grad()\<close> ("reset all parameter gradients
  to zero").\<close>

definition optimizer_zero_grad :: "'p autograd \<Rightarrow> 'p autograd" where
  "optimizer_zero_grad s = s\<lparr>grad := map_option (map (\<lambda>v. 0)) (grad s)\<rparr>"

text \<open>Modelled from the spec: \<open>loss.backward()\<close>, whose accumulation "is additive across
  calls"; \<open>g\<close> is the gradient of this pass.\<close>

definition loss_backward :: "real list \<Rightarrow> 'p autograd \<Rightarrow> 'p autograd" where
  "loss_backward g s = s\<lparr>grad := Some (case grad s of None \<Rightarrow> g | Some a \<Rightarrow> map2 (+) a g)\<rparr>"

text \<open>Forward pass, loss and backward pass of the single training step, on one batch.\<close>

definition backward_pass :: "('p \<Rightarrow> 'b \<Rightarrow> real list) \<Rightarrow> 'b \<Rightarrow> 'p autograd \<Rightarrow> 'p autograd" where
  "backward_pass dloss batch s = loss_backward (dloss (params s) batch) s"

text \<open>The gradient of a pass has the shape of the parameter, as does a present \<open>.grad\<close>.\<close>

definition grad_fits :: "real list \<Rightarrow> 'p autograd \<Rightarrow> bool" where
  "grad_fits g s = (case grad s of None \<Rightarrow> True | Some a \<Rightarrow> length a = length g)"

text \<open>A loss that does not depend on the parameter: its gradient is zero.\<close>

definition flat_loss :: "unit \<Rightarrow> unit \<Rightarrow> real list" where
  "flat_loss p batch = [0, 0]"

text \<open>A parameter before any backward pass, for concrete runs.\<close>

definition untrained :: "unit autograd" where
  "untrained = \<lparr>params = (), grad = None\<rparr>"

section \<open>Properties of the training loop\<close>

lemma train_batch_fields:
  "world (train_batch fw r b) = batch_world fw (world r) b"
  "running_loss (train_batch fw r b) = running_loss r + item fw (batch_loss fw (world r) b)"
  "printed (train_batch fw r b) = printed r"
  "trace (train_batch fw r b) = trace r @ batch_actions"
  by (simp_all add: train_batch_def do_view_def do_zero_grad_def do_model_def
      do_criterion_def do_backward_def do_step_def do_accumulate_def batch_world_def
      batch_loss_def batch_actions_def Let_def split: prod.splits)

lemma foldl_train_batch_world:
  "world (foldl (train_batch fw) r bs) = epoch_world fw bs (world r)"
  by (induction bs arbitrary: r) (simp_all add: epoch_world_def train_batch_fields)

lemma foldl_train_batch_printed:
  "printed (foldl (train_batch fw) r bs) = printed r"
  by (induction bs arbitrary: r) (simp_all add: train_batch_fields)

lemma foldl_train_batch_trace:
  "trace (foldl (train_batch fw) r bs) = trace r @ concat (map (\<lambda>b. batch_actions) bs)"
  by (induction bs arbitrary: r) (simp_all add: train_batch_fields)

lemma foldl_train_batch_loss:
  "running_loss (foldl (train_batch fw) r bs) =
     foldl (+) (running_loss r) (epoch_losses fw (world r) bs)"
  by (induction bs arbitrary: r) (simp_all add: train_batch_fields)

lemma train_epoch_nonempty:
  assumes "bs \<noteq> []"
  shows "\<exists>r'. train_epoch fw bs r = Inr r'
           \<and> world r' = epoch_world fw bs (world r)
           \<and> trace r' = trace r @ concat (map (\<lambda>b. batch_actions) bs)
           \<and> printed r' = printed r @
               [foldl (+) 0 (epoch_losses fw (world r) bs) / real (length bs)]"
  using assms
  by (simp add: train_epoch_def Let_def foldl_train_batch_world foldl_train_batch_trace
      foldl_train_batch_printed foldl_train_batch_loss)

lemma train_nonempty:
  assumes "bs \<noteq> []"
  shows "\<exists>r'. train fw n bs r = Inr r'
           \<and> world r' = (epoch_world fw bs ^^ n) (world r)
           \<and> trace r' = trace r @ concat (replicate n (concat (map (\<lambda>b. batch_actions) bs)))
           \<and> printed r' = printed r @
               map (\<lambda>e. foldl (+) 0 (epoch_losses fw ((epoch_world fw bs ^^ e) (world r)) bs)
                          / real (length bs)) [0..<n]"
proof (induction n arbitrary: r)
  case 0
  show ?case by simp
next
  case (Suc n)
  obtain r1 where r1: "train_epoch fw bs r = Inr r1"
    and w1: "world r1 = epoch_world fw bs (world r)"
    and t1: "trace r1 = trace r @ concat (map (\<lambda>b. batch_actions) bs)"
    and p1: "printed r1 = printed r @
               [foldl (+) 0 (epoch_losses fw (world r) bs) / real (length bs)]"
    using train_epoch_nonempty [OF assms, of fw r] by blast
  obtain r2 where r2: "train fw n bs r1 = Inr r2"
    and w2: "world r2 = (epoch_world fw bs ^^ n) (world r1)"
    and t2: "trace r2 = trace r1 @ concat (replicate n (concat (map (\<lambda>b. batch_actions) bs)))"
    and p2: "printed r2 = printed r1 @
               map (\<lambda>e. foldl (+) 0 (epoch_losses fw ((epoch_world fw bs ^^ e) (world r1)) bs)
                          / real (length bs)) [0..<n]"
    using Suc.IH [of r1] by blast
  have shift: "map (\<lambda>e. foldl (+) 0 (epoch_losses fw ((epoch_world fw bs ^^ e) (world r)) bs)
                          / real (length bs)) [0..<Suc n]
      = (foldl (+) 0 (epoch_losses fw (world r) bs) / real (length bs)) #
        map (\<lambda>e. foldl (+) 0 (epoch_losses fw ((epoch_world fw bs ^^ e) (world r1)) bs)
                          / real (length bs)) [0..<n]"
    unfolding upt_conv_Cons [OF zero_less_Suc] map_Suc_upt [symmetric]
    by (simp add: w1 funpow_swap1 del: upt_Suc)
  have "train fw (Suc n) bs r = Inr r2"
    by (simp add: r1 r2)
  moreover have "world r2 = (epoch_world fw bs ^^ Suc n) (world r)"
    by (simp add: w2 w1 funpow_swap1)
  moreover have "trace r2 = trace r @ concat (replicate (Suc n) (concat (map (\<lambda>b. batch_actions) bs)))"
    by (simp add: t2 t1)
  moreover have "printed r2 = printed r @
               map (\<lambda>e. foldl (+) 0 (epoch_losses fw ((epoch_world fw bs ^^ e) (world r)) bs)
                          / real (length bs)) [0..<Suc n]"
    unfolding shift by (simp add: p2 p1)
  ultimately show ?case by blast
qed

text \<open>
  C4.  With a non-empty \<open>trainloader\<close> the run completes, and the statements it
  executed are, for every epoch in turn and every batch of \<open>trainloader\<close> in turn,
  exactly: flatten the images, zero the gradients, forward pass, loss, backward
  pass, optimizer step, accumulate the scalar loss -- nothing else, and in that
  order.  The framework's state at the end is the one that this order produces:
  for each batch the optimizer step applied to the backward pass of the loss, which
  was computed by the forward pass on the flattened images after the gradients were
  zeroed (\<open>batch_world\<close>), batch after batch and epoch after epoch.
\<close>

theorem training_step_order:
  assumes "trainloader \<noteq> []"
  shows "\<exists>r'. train fw epochs trainloader r = Inr r'
           \<and> trace r' = trace r @
               concat (replicate epochs
                 (concat (map (\<lambda>b. [Flatten, ZeroGrad, Forward, Loss, Backward, Step, Accumulate])
                    trainloader)))
           \<and> world r' = (epoch_world fw trainloader ^^ epochs) (world r)"
  using train_nonempty [OF assms, of fw epochs r] by (auto simp: batch_actions_def)

theorem training_step_order_witness:
  "[(1, ()), (2, ())] \<noteq> ([] :: (real \<times> unit) list)
   \<and> (\<exists>r'. train idle 2 [(1, ()), (2, ())] fresh = Inr r'
        \<and> trace r' = trace fresh @
            concat (replicate 2
              (concat (map (\<lambda>b. [Flatten, ZeroGrad, Forward, Loss, Backward, Step, Accumulate])
                 [(1, ()), (2 :: real, ())]))))"
  using training_step_order [of "[(1, ()), (2, ())]" idle 2 fresh] by auto

text \<open>
  C5 (as the code has it).  The loop has no guard: with an empty \<open>trainloader\<close>
  and at least one epoch, the first epoch's report divides by
  \<open>len(trainloader) = 0\<close> and the run ends with \<open>ZeroDivisionError\<close>; nothing is
  printed, neither a loss nor a "no data" line.
\<close>

theorem empty_trainloader_raises:
  assumes "0 < epochs"
  shows "train fw epochs [] r = Inl ZeroDivisionError"
proof -
  obtain n where "epochs = Suc n"
    using assms by (cases epochs) auto
  then show ?thesis
    by (simp add: train_epoch_def)
qed

theorem empty_trainloader_raises_witness:
  "(0::nat) < 1 \<and> train idle 1 [] fresh = Inl ZeroDivisionError"
  using empty_trainloader_raises [of 1 idle fresh] by simp

text \<open>
  The claim that the division is guarded fails on the notebook's own setting of
  five epochs: with no batches the run is an uncaught \<open>ZeroDivisionError\<close>.
\<close>

theorem empty_trainloader_unguarded:
  "train idle 5 [] fresh = Inl ZeroDivisionError"
  by (simp add: eval_nat_numeral train_epoch_def)

text \<open>
  C7.  With a non-empty \<open>trainloader\<close> the run prints exactly one line per epoch,
  and the line of epoch \<open>e\<close> is the accumulated scalar losses of that epoch's
  batches alone (added up from zero in batch order, starting from the framework state
  that the \<open>e\<close> earlier epochs left) divided by the number of batches.
\<close>

theorem per_epoch_summary:
  assumes "trainloader \<noteq> []"
  shows "\<exists>r'. train fw epochs trainloader r = Inr r'
           \<and> length (printed r') = length (printed r) + epochs
           \<and> printed r' = printed r @
               map (\<lambda>e. foldl (+) 0
                           (epoch_losses fw ((epoch_world fw trainloader ^^ e) (world r)) trainloader)
                          / real (length trainloader)) [0..<epochs]"
proof -
  obtain r' where "train fw epochs trainloader r = Inr r'"
    and p: "printed r' = printed r @
               map (\<lambda>e. foldl (+) 0
                           (epoch_losses fw ((epoch_world fw trainloader ^^ e) (world r)) trainloader)
                          / real (length trainloader)) [0..<epochs]"
    using train_nonempty [OF assms, of fw epochs r] by blast
  moreover have "length (printed r') = length (printed r) + epochs"
    unfolding p by simp
  ultimately show ?thesis by blast
qed

theorem per_epoch_summary_witness:
  "[(1, ()), (2, ())] \<noteq> ([] :: (real \<times> unit) list)
   \<and> (\<exists>r'. train idle 2 [(1, ()), (2, ())] fresh = Inr r'
        \<and> length (printed r') = 2
        \<and> printed r' = [3 / 2, 3 / 2])"
  using per_epoch_summary [of "[(1, ()), (2, ())]" idle 2 fresh]
  by (simp add: idle_def fresh_def batch_loss_def batch_world_def epoch_world_def
      eval_nat_numeral upt_conv_Cons)

section \<open>Properties of state dictionaries and checkpoints\<close>

lemma digit_inj: "a < 10 \<Longrightarrow> b < 10 \<Longrightarrow> (char_of (48 + a) :: char) = char_of (48 + b) \<Longrightarrow> a = (b::nat)"
proof -
  assume a: "a < 10" and b: "b < 10" and e: "(char_of (48 + a) :: char) = char_of (48 + b)"
  from e have "(of_char (char_of (48 + a) :: char) :: nat) = of_char (char_of (48 + b) :: char)"
    by simp
  then have "(48 + a) mod 256 = (48 + b) mod 256"
    by (simp only: of_char_of)
  with a b show ?thesis by simp
qed

lemma str_nat_nonempty: "str_nat n \<noteq> []"
  by (subst str_nat.simps) simp

lemma str_nat_inj: "str_nat n = str_nat m \<Longrightarrow> n = m"
proof (induction n arbitrary: m rule: str_nat.induct)
  case (1 n)
  show ?case
  proof (cases "n < 10")
    case True
    then have n: "str_nat n = [char_of (48 + n)]"
      by (subst str_nat.simps) simp
    show ?thesis
    proof (cases "m < 10")
      case True
      then have "str_nat m = [char_of (48 + m)]"
        by (subst str_nat.simps) simp
      with n "1.prems" \<open>n < 10\<close> True show ?thesis
        by (auto dest: digit_inj)
    next
      case False
      then have "str_nat m = str_nat (m div 10) @ [char_of (48 + m mod 10)]"
        by (subst str_nat.simps) simp
      with n "1.prems" str_nat_nonempty [of "m div 10"] show ?thesis
        by (cases "str_nat (m div 10)") auto
    qed
  next
    case False
    then have n: "str_nat n = str_nat (n div 10) @ [char_of (48 + n mod 10)]"
      by (subst str_nat.simps) simp
    show ?thesis
    proof (cases "m < 10")
      case True
      then have "str_nat m = [char_of (48 + m)]"
        by (subst str_nat.simps) simp
      with n "1.prems" str_nat_nonempty [of "n div 10"] show ?thesis
        by (cases "str_nat (n div 10)") auto
    next
      case m: False
      then have "str_nat m = str_nat (m div 10) @ [char_of (48 + m mod 10)]"
        by (subst str_nat.simps) simp
      with n "1.prems" have e1: "str_nat (n div 10) = str_nat (m div 10)"
        and e2: "(char_of (48 + n mod 10) :: char) = char_of (48 + m mod 10)"
        by auto
      from "1.IH" [OF False e1] have d: "n div 10 = m div 10" .
      from e2 have r: "n mod 10 = m mod 10"
        by (auto dest!: digit_inj [rotated 2])
      from d r show ?thesis
        by (metis div_mult_mod_eq)
    qed
  qed
qed

lemma hidden_prefix_inj: "hidden_prefix i @ a = hidden_prefix j @ a \<Longrightarrow> i = j"
  by (auto simp: hidden_prefix_def dest: str_nat_inj)

lemma hidden_weight_bias: "hidden_prefix i @ ''weight'' \<noteq> hidden_prefix j @ ''bias''"
proof
  assume "hidden_prefix i @ ''weight'' = hidden_prefix j @ ''bias''"
  then have "last (hidden_prefix i @ ''weight'') = last (hidden_prefix j @ ''bias'')"
    by simp
  then show False by simp
qed

lemma hidden_not_output: "hidden_prefix i @ a \<noteq> ''output.'' @ b"
  by (simp add: hidden_prefix_def)

lemma load_Linear_flat:
  assumes "load_Linear sd prefix l = (l', e, m)"
  shows "Linear_state prefix l' = map (loaded sd) (Linear_state prefix l)"
    and "e = concat (map (size_errors sd) (Linear_state prefix l))"
    and "m = concat (map (missing sd) (Linear_state prefix l))"
    and "in_features l' = in_features l" and "out_features l' = out_features l"
  using assms
  by (auto simp: load_Linear_def Linear_state_def loaded_def size_errors_def missing_def
      split: prod.splits)

lemma load_layers_flat:
  assumes "load_layers sd i ls = (ls', e, m)"
  shows "layers_state i ls' = map (loaded sd) (layers_state i ls)
       \<and> e = concat (map (size_errors sd) (layers_state i ls))
       \<and> m = concat (map (missing sd) (layers_state i ls))
       \<and> map in_features ls' = map in_features ls
       \<and> map out_features ls' = map out_features ls"
  using assms
proof (induction ls arbitrary: i ls' e m)
  case Nil
  then show ?case by simp
next
  case (Cons l ls)
  obtain l1 e1 m1 where a: "load_Linear sd (hidden_prefix i) l = (l1, e1, m1)"
    by (cases "load_Linear sd (hidden_prefix i) l") auto
  obtain ls2 e2 m2 where b: "load_layers sd (Suc i) ls = (ls2, e2, m2)"
    by (cases "load_layers sd (Suc i) ls") auto
  from Cons.prems a b have r: "ls' = l1 # ls2" "e = e1 @ e2" "m = m1 @ m2"
    by auto
  show ?case
    unfolding r using load_Linear_flat [OF a] Cons.IH [OF b] by simp
qed

lemma load_state_dict_flat:
  assumes "load_state_dict m sd = (m', r)"
  shows "state_dict m' = map (loaded sd) (state_dict m)"
    and "map in_features (hidden_layers m') = map in_features (hidden_layers m)"
    and "map out_features (hidden_layers m') = map out_features (hidden_layers m)"
    and "in_features (output m') = in_features (output m)"
    and "out_features (output m') = out_features (output m)"
    and "drop_p m' = drop_p m" and "training m' = training m"
    and "r = (if load_msgs m sd \<noteq> [] then Inl (RuntimeError (load_msgs m sd)) else Inr ())"
proof -
  obtain hl e1 m1 where a: "load_layers sd 0 (hidden_layers m) = (hl, e1, m1)"
    by (cases "load_layers sd 0 (hidden_layers m)") auto
  obtain out e2 m2 where b: "load_Linear sd ''output.'' (output m) = (out, e2, m2)"
    by (cases "load_Linear sd ''output.'' (output m)") auto
  note fa = load_layers_flat [OF a] and fb = load_Linear_flat [OF b]
  from assms a b have m': "m' = m\<lparr>hidden_layers := hl, output := out\<rparr>"
    by (simp add: load_state_dict_def Let_def)
  show "state_dict m' = map (loaded sd) (state_dict m)"
    using fa fb by (simp add: m' state_dict_def)
  show "map in_features (hidden_layers m') = map in_features (hidden_layers m)"
    "map out_features (hidden_layers m') = map out_features (hidden_layers m)"
    "in_features (output m') = in_features (output m)"
    "out_features (output m') = out_features (output m)"
    "drop_p m' = drop_p m" "training m' = training m"
    using fa fb by (simp_all add: m')
  have mm: "concat (map (missing sd) (state_dict m)) = m1 @ m2"
    and ee: "concat (map (size_errors sd) (state_dict m)) = e1 @ e2"
    using fa fb by (simp_all add: state_dict_def)
  have "snd (load_state_dict m sd) = (if load_msgs m sd \<noteq> [] then Inl (RuntimeError (load_msgs m sd)) else Inr ())"
    unfolding load_state_dict_def load_msgs_def mm ee a b prod.case Let_def snd_conv ..
  with assms show "r = (if load_msgs m sd \<noteq> [] then Inl (RuntimeError (load_msgs m sd)) else Inr ())"
    by simp
qed

lemma layers_state_keys:
  "map fst (layers_state i ls) =
     concat (map (\<lambda>j. [hidden_prefix j @ ''weight'', hidden_prefix j @ ''bias'']) [i..<i + length ls])"
proof (induction ls arbitrary: i)
  case Nil
  show ?case by simp
next
  case (Cons l ls)
  have "[i..<i + length (l # ls)] = i # [Suc i..<Suc i + length ls]"
    using upt_conv_Cons [of i "i + length (l # ls)"] by simp
  then show ?case
    using Cons.IH [of "Suc i"] by (simp add: Linear_state_def)
qed

lemma state_dict_keys:
  "map fst (state_dict m) =
     concat (map (\<lambda>j. [hidden_prefix j @ ''weight'', hidden_prefix j @ ''bias''])
               [0..<length (hidden_layers m)])
     @ [''output.weight'', ''output.bias'']"
  by (simp add: state_dict_def layers_state_keys Linear_state_def)

lemma key_in_layers:
  assumes "k \<in> set (map fst (layers_state i ls))"
  shows "\<exists>j\<ge>i. k = hidden_prefix j @ ''weight'' \<or> k = hidden_prefix j @ ''bias''"
  using assms unfolding layers_state_keys by auto

lemma distinct_layers_keys: "distinct (map fst (layers_state i ls))"
proof (induction ls arbitrary: i)
  case Nil
  show ?case by simp
next
  case (Cons l ls)
  have w: "hidden_prefix i @ ''weight'' \<notin> set (map fst (layers_state (Suc i) ls))"
  proof
    assume "hidden_prefix i @ ''weight'' \<in> set (map fst (layers_state (Suc i) ls))"
    then obtain j where "j \<ge> Suc i"
      and "hidden_prefix i @ ''weight'' = hidden_prefix j @ ''weight''
           \<or> hidden_prefix i @ ''weight'' = hidden_prefix j @ ''bias''"
      using key_in_layers by blast
    then show False
      using hidden_prefix_inj [of i "''weight''" j] hidden_weight_bias [of i j] by auto
  qed
  have b: "hidden_prefix i @ ''bias'' \<notin> set (map fst (layers_state (Suc i) ls))"
  proof
    assume "hidden_prefix i @ ''bias'' \<in> set (map fst (layers_state (Suc i) ls))"
    then obtain j where "j \<ge> Suc i"
      and "hidden_prefix i @ ''bias'' = hidden_prefix j @ ''weight''
           \<or> hidden_prefix i @ ''bias'' = hidden_prefix j @ ''bias''"
      using key_in_layers by blast
    then show False
      using hidden_prefix_inj [of i "''bias''" j] hidden_weight_bias [of j i] by auto
  qed
  have wb: "hidden_prefix i @ ''weight'' \<noteq> hidden_prefix i @ ''bias''"
    by (rule hidden_weight_bias)
  show ?case
    using w b wb Cons.IH [of "Suc i"] by (simp add: Linear_state_def)
qed

lemma distinct_state_dict_keys: "distinct (map fst (state_dict m))"
proof -
  have "''output.weight'' \<notin> set (map fst (layers_state 0 (hidden_layers m)))"
    "''output.bias'' \<notin> set (map fst (layers_state 0 (hidden_layers m)))"
    using key_in_layers [of _ 0 "hidden_layers m"] hidden_not_output [of _ "''weight''" "''weight''"]
      hidden_not_output [of _ "''bias''" "''weight''"] hidden_not_output [of _ "''weight''" "''bias''"]
      hidden_not_output [of _ "''bias''" "''bias''"]
    by fastforce+
  then show ?thesis
    using distinct_layers_keys [of 0 "hidden_layers m"]
    by (simp add: state_dict_def Linear_state_def)
qed

lemma load_param_stored:
  assumes "map_of sd k = Some st" and "shape st = shape t"
  shows "load_param sd k t = (st, [], [])"
  using assms by (simp add: load_param_def)

lemma loaded_same_shapes:
  assumes d: "distinct (map fst sd)"
    and k: "map fst xs = map fst sd"
    and s: "map (\<lambda>kt. shape (snd kt)) xs = map (\<lambda>kt. shape (snd kt)) sd"
  shows "map (loaded sd) xs = sd"
    and "concat (map (size_errors sd) xs) = []"
    and "concat (map (missing sd) xs) = []"
proof -
  have len: "length xs = length sd"
    using k by (metis length_map)
  have each: "fst (xs ! n) = fst (sd ! n)
      \<and> load_param sd (fst (sd ! n)) (snd (xs ! n)) = (snd (sd ! n), [], [])"
    if n: "n < length sd" for n
  proof -
    have kn: "fst (xs ! n) = fst (sd ! n)"
      using k n len by (metis nth_map)
    have sn: "shape (snd (sd ! n)) = shape (snd (xs ! n))"
      using s n len by (metis (mono_tags, lifting) nth_map)
    have "(fst (sd ! n), snd (sd ! n)) \<in> set sd"
      using n by simp
    then have "map_of sd (fst (sd ! n)) = Some (snd (sd ! n))"
      using d by simp
    then show ?thesis
      using sn kn by (simp add: load_param_stored)
  qed
  show "map (loaded sd) xs = sd"
  proof (rule nth_equalityI)
    show "length (map (loaded sd) xs) = length sd"
      using len by simp
  next
    fix n assume "n < length (map (loaded sd) xs)"
    then have n: "n < length sd"
      using len by simp
    then show "map (loaded sd) xs ! n = sd ! n"
      using each [OF n] len by (simp add: loaded_def prod_eq_iff)
  qed
  have "\<forall>x\<in>set xs. size_errors sd x = [] \<and> missing sd x = []"
  proof
    fix x assume "x \<in> set xs"
    then obtain n where "n < length xs" "x = xs ! n"
      by (auto simp: in_set_conv_nth)
    then show "size_errors sd x = [] \<and> missing sd x = []"
      using each [of n] len by (simp add: size_errors_def missing_def)
  qed
  then show "concat (map (size_errors sd) xs) = []" "concat (map (missing sd) xs) = []"
    by simp_all
qed

lemma wf_fresh_tensor: "wf_tensor shp (fresh_tensor shp draw)"
  by (simp add: wf_tensor_def fresh_tensor_def)

lemma is_Linear_init: "is_Linear n_in n_out (Linear_init n_in n_out dw db)"
  by (simp add: is_Linear_def Linear_init_def wf_fresh_tensor)

lemma are_layers_init: "are_layers n hs (init_layers draw i n hs)"
  by (induction hs arbitrary: i n) (simp_all add: is_Linear_init)

lemma has_arch_init: "has_arch i out hs (Network_init i out hs draw)"
  by (simp add: has_arch_def Network_init_def are_layers_init is_Linear_init)

lemma are_layers_out_features: "are_layers n hs ls \<Longrightarrow> map out_features ls = hs"
  by (induction n hs ls rule: are_layers.induct) (simp_all add: is_Linear_def)

lemma is_Linear_same:
  assumes "is_Linear a b l1" and "is_Linear a b l2"
  shows "map (\<lambda>kt. shape (snd kt)) (Linear_state p l1) = map (\<lambda>kt. shape (snd kt)) (Linear_state p l2)
       \<and> in_features l1 = in_features l2 \<and> out_features l1 = out_features l2"
  using assms by (simp add: is_Linear_def wf_tensor_def Linear_state_def)

lemma are_layers_same:
  assumes "are_layers n hs ls1" and "are_layers n hs ls2"
  shows "length ls1 = length ls2
       \<and> map (\<lambda>kt. shape (snd kt)) (layers_state i ls1) = map (\<lambda>kt. shape (snd kt)) (layers_state i ls2)
       \<and> map in_features ls1 = map in_features ls2
       \<and> map out_features ls1 = map out_features ls2"
  using assms
proof (induction n hs ls1 arbitrary: ls2 i rule: are_layers.induct)
  case (1 n_in)
  then show ?case by (cases ls2) simp_all
next
  case (2 n_in h hs l ls)
  then obtain l2 ls2' where ls2: "ls2 = l2 # ls2'"
    by (cases ls2) simp_all
  with "2.prems" have a: "is_Linear n_in h l" "is_Linear n_in h l2"
    and b: "are_layers h hs ls" "are_layers h hs ls2'"
    by simp_all
  show ?case
    unfolding ls2 using is_Linear_same [OF a, where p = "hidden_prefix i"] "2.IH" [OF b, of "Suc i"] by simp
next
  case (3 n_in l ls)
  then show ?case by simp
next
  case (4 n_in h hs)
  then show ?case by simp
qed

lemma length_layers_state: "length (layers_state i ls) = 2 * length ls"
  by (induction ls arbitrary: i) (simp_all add: Linear_state_def)

lemma Linear_state_inj:
  assumes "Linear_state p l1 = Linear_state p l2"
    and "in_features l1 = in_features l2" and "out_features l1 = out_features l2"
  shows "l1 = l2"
  using assms by (simp add: Linear_state_def Linear.equality)

lemma layers_state_inj:
  assumes "layers_state i ls1 = layers_state i ls2"
    and "map in_features ls1 = map in_features ls2"
    and "map out_features ls1 = map out_features ls2"
  shows "ls1 = ls2"
  using assms
proof (induction ls1 arbitrary: ls2 i)
  case Nil
  then show ?case by simp
next
  case (Cons l ls)
  then obtain l2 ls2' where ls2: "ls2 = l2 # ls2'"
    by (cases ls2) auto
  from Cons.prems(1) have "Linear_state (hidden_prefix i) l = Linear_state (hidden_prefix i) l2"
    and "layers_state (Suc i) ls = layers_state (Suc i) ls2'"
    unfolding ls2 by (simp_all add: Linear_state_def)
  then show ?case
    using Cons.prems(2,3) Cons.IH [of "Suc i" ls2'] Linear_state_inj [of "hidden_prefix i" l l2]
    unfolding ls2 by simp
qed

lemma state_dict_inj:
  assumes s: "state_dict m1 = state_dict m2"
    and "map in_features (hidden_layers m1) = map in_features (hidden_layers m2)"
    and "map out_features (hidden_layers m1) = map out_features (hidden_layers m2)"
    and "in_features (output m1) = in_features (output m2)"
    and "out_features (output m1) = out_features (output m2)"
  shows "hidden_layers m1 = hidden_layers m2" and "output m1 = output m2"
proof -
  have "length (hidden_layers m1) = length (hidden_layers m2)"
    using assms(2) by (metis length_map)
  then have "length (layers_state 0 (hidden_layers m1)) = length (layers_state 0 (hidden_layers m2))"
    by (simp add: length_layers_state)
  with s have a: "layers_state 0 (hidden_layers m1) = layers_state 0 (hidden_layers m2)"
    and b: "Linear_state ''output.'' (output m1) = Linear_state ''output.'' (output m2)"
    by (simp_all add: state_dict_def)
  show "hidden_layers m1 = hidden_layers m2"
    using layers_state_inj [OF a assms(2,3)] .
  show "output m1 = output m2"
    using Linear_state_inj [OF b assms(4,5)] .
qed

lemma has_arch_same:
  assumes "has_arch i out hs m1" and "has_arch i out hs m2"
  shows "map fst (state_dict m1) = map fst (state_dict m2)"
    and "map (\<lambda>kt. shape (snd kt)) (state_dict m1) = map (\<lambda>kt. shape (snd kt)) (state_dict m2)"
    and "map in_features (hidden_layers m1) = map in_features (hidden_layers m2)"
    and "map out_features (hidden_layers m1) = map out_features (hidden_layers m2)"
    and "in_features (output m1) = in_features (output m2)"
    and "out_features (output m1) = out_features (output m2)"
proof -
  from assms have a: "are_layers i hs (hidden_layers m1)" "are_layers i hs (hidden_layers m2)"
    and b: "is_Linear (last (i # hs)) out (output m1)" "is_Linear (last (i # hs)) out (output m2)"
    by (simp_all add: has_arch_def)
  note sa = are_layers_same [OF a, where i = 0] and sb = is_Linear_same [OF b, where p = "''output.''"]
  show "map fst (state_dict m1) = map fst (state_dict m2)"
    using sa by (simp add: state_dict_keys)
  show "map (\<lambda>kt. shape (snd kt)) (state_dict m1) = map (\<lambda>kt. shape (snd kt)) (state_dict m2)"
    using sa sb by (simp add: state_dict_def)
  show "map in_features (hidden_layers m1) = map in_features (hidden_layers m2)"
    "map out_features (hidden_layers m1) = map out_features (hidden_layers m2)"
    "in_features (output m1) = in_features (output m2)"
    "out_features (output m1) = out_features (output m2)"
    using sa sb by simp_all
qed

text \<open>Loading a state dictionary into a module of the same architecture.\<close>

lemma load_same_arch:
  assumes t: "has_arch i out hs t" and m: "has_arch i out hs m"
  shows "\<exists>t'. load_state_dict t (state_dict m) = (t', Inr ())
           \<and> hidden_layers t' = hidden_layers m \<and> output t' = output m
           \<and> drop_p t' = drop_p t \<and> training t' = training t"
proof -
  obtain t' r where l: "load_state_dict t (state_dict m) = (t', r)"
    by (cases "load_state_dict t (state_dict m)") auto
  note f = load_state_dict_flat [OF l] and s = has_arch_same [OF t m]
  note ok = loaded_same_shapes [OF distinct_state_dict_keys s(1,2)]
  have "filter (\<lambda>k. k \<notin> set (map fst (state_dict t))) (map fst (state_dict m)) = []"
    unfolding s(1) by simp
  then have "load_msgs t (state_dict m) = []"
    using ok(2,3) by (simp add: load_msgs_def)
  then have r: "r = Inr ()"
    using f(8) by simp
  have sd: "state_dict t' = state_dict m"
    using f(1) ok(1) by simp
  have "hidden_layers t' = hidden_layers m" "output t' = output m"
    using state_dict_inj [OF sd] f(2-5) s(3-6) by simp_all
  then show ?thesis
    using l r f(6,7) by simp
qed

lemma checkpoint_getitem:
  "getitem (checkpoint m) ''input_size'' = Inr (PyInt 784)"
  "getitem (checkpoint m) ''output_size'' = Inr (PyInt 10)"
  "getitem (checkpoint m) ''hidden_layers'' = Inr (PyList (map out_features (hidden_layers m)))"
  "getitem (checkpoint m) ''state_dict'' = Inr (PyStateDict (state_dict m))"
  by (simp_all add: getitem_def checkpoint_def)

lemma load_saved_checkpoint:
  "load_checkpoint draw (torch_save (checkpoint m) path fs) path =
     (case load_state_dict (Network_init 784 10 (map out_features (hidden_layers m)) draw)
             (state_dict m) of
        (m', Inl e) \<Rightarrow> Inl e
      | (m', Inr u) \<Rightarrow> Inr m')"
  by (simp add: load_checkpoint_def torch_load_def torch_save_def checkpoint_getitem
      Network_call_def)

lemma round_trip_params:
  assumes "has_arch 784 10 hs m"
  shows "\<exists>m'. load_checkpoint draw (torch_save (checkpoint m) path fs) path = Inr m'
           \<and> hidden_layers m' = hidden_layers m \<and> output m' = output m
           \<and> state_dict m' = state_dict m"
proof -
  have hs: "map out_features (hidden_layers m) = hs"
    using assms are_layers_out_features unfolding has_arch_def by blast
  obtain t' where "load_state_dict (Network_init 784 10 hs draw) (state_dict m) = (t', Inr ())"
    and "hidden_layers t' = hidden_layers m" "output t' = output m"
    using load_same_arch [OF has_arch_init assms, of draw] by blast
  then show ?thesis
    by (simp add: load_saved_checkpoint hs state_dict_def)
qed

section \<open>Properties of the forward pass\<close>

lemma Linear_call_ok:
  assumes "is_Linear a b l" and "\<forall>row\<in>set x. length row = a"
  shows "Linear_call l x = Inr (map (affine_row l) x)"
    and "\<forall>row\<in>set (map (affine_row l) x). length row = b"
proof -
  have "filter (\<lambda>row. length row \<noteq> in_features l) x = []"
    using assms by (auto simp: is_Linear_def filter_empty_conv)
  then show "Linear_call l x = Inr (map (affine_row l) x)"
    by (simp add: Linear_call_def)
  show "\<forall>row\<in>set (map (affine_row l) x). length row = b"
    using assms(1) by (simp add: affine_row_def is_Linear_def)
qed

lemma dropout_shape:
  "length (dropout p tr keep x) = length x"
  "(\<forall>row\<in>set x. length row = n) \<Longrightarrow> \<forall>row\<in>set (dropout p tr keep x). length row = n"
  by (auto simp: dropout_def in_set_enumerate_eq)

lemma hidden_forward_ok:
  assumes "are_layers n hs ls" and "\<forall>row\<in>set x. length row = n"
  shows "\<exists>h. hidden_forward p tr keep i ls x = Inr h \<and> length h = length x
           \<and> (\<forall>row\<in>set h. length row = last (n # hs))"
  using assms
proof (induction n hs ls arbitrary: x i rule: are_layers.induct)
  case (1 n_in)
  then show ?case by simp
next
  case (2 n_in h hs l ls)
  from "2.prems" have l: "is_Linear n_in h l" and ls: "are_layers h hs ls"
    by simp_all
  note c = Linear_call_ok [OF l "2.prems"(2)]
  let ?y = "dropout p tr (keep i) (map (map relu) (map (affine_row l) x))"
  have "\<forall>row\<in>set (map (map relu) (map (affine_row l) x)). length row = h"
    using c(2) by simp
  then have y: "\<forall>row\<in>set ?y. length row = h"
    by (rule dropout_shape(2))
  have ly: "length ?y = length x"
    by (simp add: dropout_shape(1))
  from "2.IH" [OF ls y, of "Suc i"] ly show ?case
    by (simp add: c(1))
next
  case (3 n_in l ls)
  then show ?case by simp
next
  case (4 n_in h hs)
  then show ?case by simp
qed

lemma sum_exp_pos: "row \<noteq> [] \<Longrightarrow> 0 < (\<Sum>u\<leftarrow>row. exp (u::real))"
proof (induction row)
  case Nil
  then show ?case by simp
next
  case (Cons a row)
  show ?case
  proof (cases "row = []")
    case True
    then show ?thesis by simp
  next
    case False
    with Cons.IH have "0 < (\<Sum>u\<leftarrow>row. exp u)" by simp
    moreover have "0 < exp a" by simp
    ultimately have "0 < exp a + (\<Sum>u\<leftarrow>row. exp u)" by (rule add_pos_pos [rotated])
    then show ?thesis by simp
  qed
qed

lemma sum_list_divide: "(\<Sum>v\<leftarrow>xs. f v / (c::real)) = (\<Sum>v\<leftarrow>xs. f v) / c"
  by (induction xs) (simp_all add: add_divide_distrib)

lemma log_softmax_normalised:
  assumes "row \<noteq> []"
  shows "(\<Sum>v\<leftarrow>log_softmax row. exp v) = 1"
proof -
  let ?S = "\<Sum>u\<leftarrow>row. exp u"
  have S: "0 < ?S"
    using assms by (rule sum_exp_pos)
  have "(\<Sum>v\<leftarrow>log_softmax row. exp v) = (\<Sum>v\<leftarrow>row. exp v / ?S)"
    using S by (simp add: log_softmax_def exp_diff comp_def)
  also have "\<dots> = ?S / ?S"
    by (rule sum_list_divide)
  also have "\<dots> = 1"
    using S by simp
  finally show ?thesis .
qed

text \<open>
  In exact arithmetic (entries as reals): for a model of architecture
  \<open>(input_size, output_size, hs)\<close> with a positive output size and a batch of \<open>b\<close> rows
  of length \<open>input_size\<close>, \<open>forward\<close> returns \<open>b\<close> rows of length \<open>output_size\<close>, and
  the exponentials of every row sum to one.  This is a property of the function that
  the network computes over the reals, not of its evaluation in floating point (for
  which see the last section).
\<close>

lemma forward_normalised_exact:
  assumes "has_arch input_size output_size hs m" and "0 < output_size"
    and "length x = b" and "\<forall>row\<in>set x. length row = input_size"
  shows "\<exists>out. forward m keep x = Inr out \<and> length out = b
           \<and> (\<forall>row\<in>set out. length row = output_size \<and> (\<Sum>v\<leftarrow>row. exp v) = 1)"
proof -
  from assms(1) have hl: "are_layers input_size hs (hidden_layers m)"
    and ol: "is_Linear (last (input_size # hs)) output_size (output m)"
    unfolding has_arch_def by blast+
  obtain h where h: "hidden_forward (drop_p m) (training m) keep 0 (hidden_layers m) x = Inr h"
    and lh: "length h = length x"
    and rh: "\<forall>row\<in>set h. length row = last (input_size # hs)"
    using hidden_forward_ok [OF hl assms(4)] by blast
  note c = Linear_call_ok [OF ol rh]
  let ?z = "map (affine_row (output m)) h"
  have f: "forward m keep x = Inr (map log_softmax ?z)"
    by (simp add: forward_def h c(1))
  have "length row = output_size \<and> (\<Sum>v\<leftarrow>row. exp v) = 1" if "row \<in> set (map log_softmax ?z)" for row
  proof -
    from that obtain z where z: "z \<in> set ?z" and row: "row = log_softmax z"
      by auto
    from z c(2) have "length z = output_size"
      by blast
    with assms(2) have "z \<noteq> []"
      by auto
    then have "(\<Sum>v\<leftarrow>log_softmax z. exp v) = 1"
      by (rule log_softmax_normalised)
    moreover have "length (log_softmax z) = output_size"
      using \<open>length z = output_size\<close> by (simp add: log_softmax_def)
    ultimately show ?thesis
      unfolding row by simp
  qed
  then show ?thesis
    using f lh assms(3) by simp
qed

lemma has_arch_tiny: "has_arch 1 2 [1] tiny"
  by (simp add: has_arch_def tiny_def is_Linear_def wf_tensor_def)

section \<open>Saving and loading a checkpoint\<close>

lemma dropout_eval: "dropout p False keep x = x"
  by (simp add: dropout_def)

lemma hidden_forward_eval:
  "hidden_forward p False keep i ls x = hidden_forward p' False keep' i' ls x"
proof (induction ls arbitrary: x i i')
  case Nil
  show ?case by simp
next
  case (Cons l ls)
  show ?case
    using Cons.IH [of "Suc i" _ "Suc i'"] by (simp add: dropout_eval split: sum.splits)
qed

lemma forward_eval_cong:
  assumes "hidden_layers m1 = hidden_layers m2" and "output m1 = output m2"
  shows "forward (eval_mode m1) keep x = forward (eval_mode m2) keep' x"
proof -
  have h: "hidden_forward (drop_p (eval_mode m1)) (training (eval_mode m1)) keep 0
             (hidden_layers (eval_mode m1)) x
         = hidden_forward (drop_p (eval_mode m2)) (training (eval_mode m2)) keep' 0
             (hidden_layers (eval_mode m2)) x"
    using assms(1) hidden_forward_eval [of "drop_p m1" keep 0 "hidden_layers m2" x "drop_p m2" keep' 0]
    by (simp add: eval_mode_def)
  have o: "output (eval_mode m1) = output (eval_mode m2)"
    using assms(2) by (simp add: eval_mode_def)
  show ?thesis
    unfolding forward_def h o ..
qed

text \<open>
  C1 (as the code has it).  The checkpoint of cell 11 writes the literals \<open>784\<close> and
  \<open>10\<close> as input and output size, whatever the model.  For every model of
  architecture \<open>(784, 10, hs)\<close>, with any hidden widths \<open>hs\<close> and any parameter
  values, saving the checkpoint and loading it yields a model with the same state
  dictionary, the same layers, and the same forward output in evaluation mode on
  every batch, whatever the loader's random initialisation \<open>draw\<close>.
\<close>

theorem checkpoint_round_trip:
  assumes "has_arch 784 10 hs m"
  shows "\<exists>m'. load_checkpoint draw (torch_save (checkpoint m) path fs) path = Inr m'
           \<and> state_dict m' = state_dict m
           \<and> hidden_layers m' = hidden_layers m \<and> output m' = output m
           \<and> (\<forall>keep keep' x. forward (eval_mode m') keep x = forward (eval_mode m) keep' x)"
proof -
  obtain m' where l: "load_checkpoint draw (torch_save (checkpoint m) path fs) path = Inr m'"
    and p: "hidden_layers m' = hidden_layers m" "output m' = output m"
    and s: "state_dict m' = state_dict m"
    using round_trip_params [OF assms, of draw path fs] by blast
  have "\<forall>keep keep' x. forward (eval_mode m') keep x = forward (eval_mode m) keep' x"
    using forward_eval_cong [OF p] by blast
  with l p s show ?thesis by blast
qed

theorem checkpoint_round_trip_witness:
  "has_arch 784 10 [2] (Network_init 784 10 [2] (\<lambda>k j. 1))
   \<and> (\<exists>m'. load_checkpoint (\<lambda>k j. 0)
              (torch_save (checkpoint (Network_init 784 10 [2] (\<lambda>k j. 1))) ''checkpoint.pth'' Map.empty)
              ''checkpoint.pth'' = Inr m'
        \<and> state_dict m' = state_dict (Network_init 784 10 [2] (\<lambda>k j. 1))
        \<and> hidden_layers m' = hidden_layers (Network_init 784 10 [2] (\<lambda>k j. 1))
        \<and> output m' = output (Network_init 784 10 [2] (\<lambda>k j. 1))
        \<and> (\<forall>keep keep' x. forward (eval_mode m') keep x
              = forward (eval_mode (Network_init 784 10 [2] (\<lambda>k j. 1))) keep' x))"
proof -
  have a: "has_arch 784 10 [2] (Network_init 784 10 [2] (\<lambda>k j. 1))"
    by (rule has_arch_init)
  from checkpoint_round_trip [OF a, of "\<lambda>k j. 0" "''checkpoint.pth''" Map.empty] a
  show ?thesis by blast
qed

lemma str_nat_0: "str_nat 0 = ''0''"
  by code_simp

lemma shape_fresh_tensor: "shape (fresh_tensor shp draw) = shp"
  by (simp add: fresh_tensor_def)

text \<open>
  For a model built from other valid sizes the round trip fails: the network
  \<open>tiny\<close> has architecture \<open>(1, 2, [1])\<close>; its checkpoint says \<open>784\<close> and \<open>10\<close>, the
  loader builds a \<open>(784, 10, [1])\<close> network, and \<open>load_state_dict\<close> raises.
\<close>

theorem checkpoint_round_trip_other_sizes:
  "has_arch 1 2 [1] tiny
   \<and> load_checkpoint zero_draw (torch_save (checkpoint tiny) ''checkpoint.pth'' Map.empty)
        ''checkpoint.pth''
     = Inl (RuntimeError
         [SizeMismatch ''hidden_layers.0.weight'' [1, 1] [1, 784],
          SizeMismatch ''output.weight'' [2, 1] [10, 1],
          SizeMismatch ''output.bias'' [2] [10]])"
proof -
  have "snd (load_state_dict (Network_init 784 10 [1] zero_draw) (state_dict tiny))
        = (Inl (RuntimeError
         [SizeMismatch ''hidden_layers.0.weight'' [1, 1] [1, 784],
          SizeMismatch ''output.weight'' [2, 1] [10, 1],
          SizeMismatch ''output.bias'' [2] [10]]))"
    by (simp add: load_state_dict_def Network_init_def Linear_init_def shape_fresh_tensor
        state_dict_def Linear_state_def load_Linear_def load_param_def hidden_prefix_def
        str_nat_0 tiny_def Let_def)
  moreover have "map out_features (hidden_layers tiny) = [1]"
    by (simp add: tiny_def)
  ultimately show ?thesis
    using has_arch_tiny by (simp add: load_saved_checkpoint case_prod_beta)
qed

subsection \<open>The layout of a checkpoint\<close>

lemma layers_state_member:
  assumes "j < length ls"
  shows "(hidden_prefix (i + j) @ ''weight'', weight (ls ! j)) \<in> set (layers_state i ls)"
    and "(hidden_prefix (i + j) @ ''bias'', bias (ls ! j)) \<in> set (layers_state i ls)"
  using assms
proof (induction ls arbitrary: i j)
  case Nil
  {
    case 1
    then show ?case by simp
  next
    case 2
    then show ?case by simp
  }
next
  case (Cons l ls)
  {
    case 1
    show ?case
    proof (cases j)
      case 0
      then show ?thesis by (simp add: Linear_state_def)
    next
      case (Suc j')
      with 1 have "j' < length ls" by simp
      from Cons.IH(1) [OF this, of "Suc i"] Suc show ?thesis by simp
    qed
  next
    case 2
    show ?case
    proof (cases j)
      case 0
      then show ?thesis by (simp add: Linear_state_def)
    next
      case (Suc j')
      with 2 have "j' < length ls" by simp
      from Cons.IH(2) [OF this, of "Suc i"] Suc show ?thesis by simp
    qed
  }
qed

lemma state_dict_lookup:
  "j < length (hidden_layers m) \<Longrightarrow>
     map_of (state_dict m) (hidden_prefix j @ ''weight'') = Some (weight (hidden_layers m ! j))"
  "j < length (hidden_layers m) \<Longrightarrow>
     map_of (state_dict m) (hidden_prefix j @ ''bias'') = Some (bias (hidden_layers m ! j))"
  "map_of (state_dict m) ''output.weight'' = Some (weight (output m))"
  "map_of (state_dict m) ''output.bias'' = Some (bias (output m))"
proof -
  note d = distinct_state_dict_keys [of m]
  show "map_of (state_dict m) (hidden_prefix j @ ''weight'') = Some (weight (hidden_layers m ! j))"
    if "j < length (hidden_layers m)"
    using layers_state_member(1) [OF that, of 0] d by (simp add: state_dict_def)
  show "map_of (state_dict m) (hidden_prefix j @ ''bias'') = Some (bias (hidden_layers m ! j))"
    if "j < length (hidden_layers m)"
    using layers_state_member(2) [OF that, of 0] d by (simp add: state_dict_def)
  have "(''output.weight'', weight (output m)) \<in> set (state_dict m)"
    "(''output.bias'', bias (output m)) \<in> set (state_dict m)"
    by (simp_all add: state_dict_def Linear_state_def)
  then show "map_of (state_dict m) ''output.weight'' = Some (weight (output m))"
    "map_of (state_dict m) ''output.bias'' = Some (bias (output m))"
    using d by simp_all
qed

text \<open>
  C8.  The checkpoint is one dictionary with exactly the four keys \<open>input_size\<close>,
  \<open>output_size\<close>, \<open>hidden_layers\<close>, \<open>state_dict\<close>, holding two integers, the list of
  the hidden layers' widths and the model's state dictionary.  For a model with \<open>k\<close>
  hidden layers the state dictionary's keys are exactly \<open>hidden_layers.i.weight\<close> and
  \<open>hidden_layers.i.bias\<close> for \<open>i = 0, ..., k - 1\<close>, then \<open>output.weight\<close> and
  \<open>output.bias\<close>, all distinct, and each key is mapped to that layer's weight or bias.
\<close>

theorem checkpoint_layout:
  "map fst (checkpoint m) = [''input_size'', ''output_size'', ''hidden_layers'', ''state_dict'']
   \<and> map snd (checkpoint m) =
       [PyInt 784, PyInt 10, PyList (map out_features (hidden_layers m)), PyStateDict (state_dict m)]
   \<and> map fst (state_dict m) =
       concat (map (\<lambda>i. [''hidden_layers.'' @ str_nat i @ ''.weight'',
                          ''hidden_layers.'' @ str_nat i @ ''.bias''])
                 [0..<length (hidden_layers m)])
       @ [''output.weight'', ''output.bias'']
   \<and> distinct (map fst (state_dict m))
   \<and> (\<forall>i < length (hidden_layers m).
         map_of (state_dict m) (''hidden_layers.'' @ str_nat i @ ''.weight'')
           = Some (weight (hidden_layers m ! i))
       \<and> map_of (state_dict m) (''hidden_layers.'' @ str_nat i @ ''.bias'')
           = Some (bias (hidden_layers m ! i)))
   \<and> map_of (state_dict m) ''output.weight'' = Some (weight (output m))
   \<and> map_of (state_dict m) ''output.bias'' = Some (bias (output m))"
proof -
  have a: "map fst (checkpoint m) = [''input_size'', ''output_size'', ''hidden_layers'', ''state_dict'']"
    and b: "map snd (checkpoint m) =
       [PyInt 784, PyInt 10, PyList (map out_features (hidden_layers m)), PyStateDict (state_dict m)]"
    by (simp_all add: checkpoint_def)
  have c: "map fst (state_dict m) =
       concat (map (\<lambda>i. [''hidden_layers.'' @ str_nat i @ ''.weight'',
                          ''hidden_layers.'' @ str_nat i @ ''.bias''])
                 [0..<length (hidden_layers m)])
       @ [''output.weight'', ''output.bias'']"
    using state_dict_keys [of m] by (simp add: hidden_prefix_def)
  have d: "\<forall>i < length (hidden_layers m).
         map_of (state_dict m) (''hidden_layers.'' @ str_nat i @ ''.weight'')
           = Some (weight (hidden_layers m ! i))
       \<and> map_of (state_dict m) (''hidden_layers.'' @ str_nat i @ ''.bias'')
           = Some (bias (hidden_layers m ! i))"
    using state_dict_lookup(1,2) [of _ m] by (simp add: hidden_prefix_def)
  show ?thesis
    using a b c d distinct_state_dict_keys [of m] state_dict_lookup(3,4) [of m] by blast
qed

theorem checkpoint_layout_witness:
  "(0::nat) < length (hidden_layers tiny)
   \<and> map fst (checkpoint tiny) = [''input_size'', ''output_size'', ''hidden_layers'', ''state_dict'']
   \<and> map fst (state_dict tiny) =
        [''hidden_layers.0.weight'', ''hidden_layers.0.bias'', ''output.weight'', ''output.bias'']
   \<and> map_of (state_dict tiny) ''hidden_layers.0.weight'' = Some \<lparr>shape = [1, 1], data = [1]\<rparr>
   \<and> map_of (state_dict tiny) ''hidden_layers.0.bias'' = Some \<lparr>shape = [1], data = [0]\<rparr>
   \<and> map_of (state_dict tiny) ''output.weight'' = Some \<lparr>shape = [2, 1], data = [1, 0]\<rparr>
   \<and> map_of (state_dict tiny) ''output.bias'' = Some \<lparr>shape = [2], data = [0, 0]\<rparr>"
proof -
  have l: "(0::nat) < length (hidden_layers tiny)"
    by (simp add: tiny_def)
  have h: "hidden_layers tiny ! 0 = \<lparr>in_features = 1, out_features = 1,
          weight = \<lparr>shape = [1, 1], data = [1]\<rparr>, bias = \<lparr>shape = [1], data = [0]\<rparr>\<rparr>"
    and o: "output tiny = \<lparr>in_features = 1, out_features = 2,
         weight = \<lparr>shape = [2, 1], data = [1, 0]\<rparr>, bias = \<lparr>shape = [2], data = [0, 0]\<rparr>\<rparr>"
    and n: "length (hidden_layers tiny) = 1"
    by (simp_all add: tiny_def)
  from checkpoint_layout [of tiny] l show ?thesis
    by (simp add: h o n str_nat_0)
qed

subsection \<open>Independence from the random initialisation\<close>

lemma load_param_same_sig:
  assumes "fst x = fst y" and "shape (snd x) = shape (snd y)"
  shows "size_errors sd x = size_errors sd y"
    and "missing sd x = missing sd y"
    and "size_errors sd x = [] \<Longrightarrow> missing sd x = [] \<Longrightarrow> loaded sd x = loaded sd y"
  using assms
  by (auto simp: size_errors_def missing_def loaded_def load_param_def
      split: option.splits if_splits)

lemma same_sig_lists:
  assumes "map fst xs = map fst ys"
    and "map (\<lambda>kt. shape (snd kt)) xs = map (\<lambda>kt. shape (snd kt)) ys"
  shows "map (size_errors sd) xs = map (size_errors sd) ys"
    and "map (missing sd) xs = map (missing sd) ys"
    and "concat (map (size_errors sd) xs) = [] \<Longrightarrow> concat (map (missing sd) xs) = []
           \<Longrightarrow> map (loaded sd) xs = map (loaded sd) ys"
proof -
  have len: "length xs = length ys"
    using assms(1) by (metis length_map)
  have sig: "fst (xs ! n) = fst (ys ! n) \<and> shape (snd (xs ! n)) = shape (snd (ys ! n))"
    if "n < length xs" for n
  proof -
    have "map fst xs ! n = map fst ys ! n"
      "map (\<lambda>kt. shape (snd kt)) xs ! n = map (\<lambda>kt. shape (snd kt)) ys ! n"
      using assms by simp_all
    then show ?thesis
      using that len by simp
  qed
  have "\<forall>n<length xs. size_errors sd (xs ! n) = size_errors sd (ys ! n)"
    using sig load_param_same_sig(1) by blast
  then show "map (size_errors sd) xs = map (size_errors sd) ys"
    by (simp add: list_eq_iff_nth_eq len)
  have "\<forall>n<length xs. missing sd (xs ! n) = missing sd (ys ! n)"
    using sig load_param_same_sig(2) by blast
  then show "map (missing sd) xs = map (missing sd) ys"
    by (simp add: list_eq_iff_nth_eq len)
  show "map (loaded sd) xs = map (loaded sd) ys"
    if e: "concat (map (size_errors sd) xs) = []" and m: "concat (map (missing sd) xs) = []"
  proof (rule nth_equalityI)
    show "length (map (loaded sd) xs) = length (map (loaded sd) ys)"
      using len by simp
  next
    fix n assume "n < length (map (loaded sd) xs)"
    then have n: "n < length xs" by simp
    then have "xs ! n \<in> set xs" by simp
    with e m have "size_errors sd (xs ! n) = []" "missing sd (xs ! n) = []"
      by simp_all
    with sig [OF n] have "loaded sd (xs ! n) = loaded sd (ys ! n)"
      by (auto dest: load_param_same_sig(3))
    then show "map (loaded sd) xs ! n = map (loaded sd) ys ! n"
      using n len by simp
  qed
qed

lemma load_same_architecture:
  assumes a1: "has_arch i out hs t1" and a2: "has_arch i out hs t2"
    and dp: "drop_p t1 = drop_p t2" and tr: "training t1 = training t2"
  shows "snd (load_state_dict t1 sd) = snd (load_state_dict t2 sd)"
    and "snd (load_state_dict t1 sd) = Inr () \<Longrightarrow>
           fst (load_state_dict t1 sd) = fst (load_state_dict t2 sd)"
proof -
  obtain t1' r1 where l1: "load_state_dict t1 sd = (t1', r1)"
    by (cases "load_state_dict t1 sd") auto
  obtain t2' r2 where l2: "load_state_dict t2 sd = (t2', r2)"
    by (cases "load_state_dict t2 sd") auto
  note f1 = load_state_dict_flat [OF l1] and f2 = load_state_dict_flat [OF l2]
  note s = has_arch_same [OF a1 a2]
  note g = same_sig_lists [OF s(1,2), of sd]
  have msgs: "load_msgs t1 sd = load_msgs t2 sd"
    unfolding load_msgs_def g(1) g(2) s(1) ..
  then have r: "r1 = r2"
    using f1(8) f2(8) by simp
  show "snd (load_state_dict t1 sd) = snd (load_state_dict t2 sd)"
    using l1 l2 r by simp
  show "fst (load_state_dict t1 sd) = fst (load_state_dict t2 sd)"
    if "snd (load_state_dict t1 sd) = Inr ()"
  proof -
    from that l1 f1(8) have "load_msgs t1 sd = []"
      by (simp split: if_splits)
    then have "concat (map (size_errors sd) (state_dict t1)) = []"
      "concat (map (missing sd) (state_dict t1)) = []"
      by (simp_all add: load_msgs_def split: if_splits)
    then have "map (loaded sd) (state_dict t1) = map (loaded sd) (state_dict t2)"
      by (rule g(3))
    then have sd: "state_dict t1' = state_dict t2'"
      using f1(1) f2(1) by simp
    have "hidden_layers t1' = hidden_layers t2'" "output t1' = output t2'"
      using state_dict_inj [OF sd] f1(2-5) f2(2-5) s(3-6) by simp_all
    moreover have "drop_p t1' = drop_p t2'" "training t1' = training t2'"
      using f1(6,7) f2(6,7) dp tr by simp_all
    ultimately have "t1' = t2'"
      by (simp add: Network.equality)
    then show ?thesis
      using l1 l2 by simp
  qed
qed

lemma Network_call_cases:
  "(Network_call a b c draw1 = Inl TypeError \<and> Network_call a b c draw2 = Inl TypeError)
   \<or> (\<exists>i out hs. Network_call a b c draw1 = Inr (Network_init i out hs draw1)
         \<and> Network_call a b c draw2 = Inr (Network_init i out hs draw2))"
  by (cases a; cases b; cases c) (auto simp: Network_call_def)

text \<open>
  C10.  What \<open>load_checkpoint\<close> returns -- the model, or the exception -- does not
  depend on the random initial entries of the network it constructs: two loads of the
  same file give the same result for any two draws.
\<close>

theorem load_independent_of_initialisation:
  "load_checkpoint draw1 fs filepath = load_checkpoint draw2 fs filepath"
proof -
  have init: "(case load_state_dict (Network_init i out hs draw1) sd of
                 (m', Inl e) \<Rightarrow> Inl e | (m', Inr u) \<Rightarrow> Inr m')
            = (case load_state_dict (Network_init i out hs draw2) sd of
                 (m', Inl e) \<Rightarrow> Inl e | (m', Inr u) \<Rightarrow> Inr m')" for i out hs sd
  proof -
    have dp: "drop_p (Network_init i out hs draw1) = drop_p (Network_init i out hs draw2)"
      and tr: "training (Network_init i out hs draw1) = training (Network_init i out hs draw2)"
      by (simp_all add: Network_init_def)
    note l = load_same_architecture [OF has_arch_init has_arch_init dp tr, of sd]
    show ?thesis
    proof (cases "snd (load_state_dict (Network_init i out hs draw1) sd)")
      case (Inl e)
      moreover from Inl l(1)
      have "snd (load_state_dict (Network_init i out hs draw2) sd) = Inl e"
        by simp
      ultimately show ?thesis
        by (simp add: case_prod_beta)
    next
      case (Inr u)
      moreover from Inr l(1)
      have "snd (load_state_dict (Network_init i out hs draw2) sd) = Inr u"
        by simp
      moreover from Inr l(2)
      have "fst (load_state_dict (Network_init i out hs draw1) sd)
          = fst (load_state_dict (Network_init i out hs draw2) sd)"
        by simp
      ultimately show ?thesis
        by (simp add: case_prod_beta)
    qed
  qed
  show ?thesis
  proof (cases "torch_load fs filepath")
    case (Inl e)
    then show ?thesis by (simp add: load_checkpoint_def)
  next
    case ckpt: (Inr ckpt)
    show ?thesis
    proof (cases "getitem ckpt ''input_size''")
      case (Inl e)
      then show ?thesis by (simp add: load_checkpoint_def ckpt)
    next
      case a: (Inr a)
      show ?thesis
      proof (cases "getitem ckpt ''output_size''")
        case (Inl e)
        then show ?thesis by (simp add: load_checkpoint_def ckpt a)
      next
        case b: (Inr b)
        show ?thesis
        proof (cases "getitem ckpt ''hidden_layers''")
          case (Inl e)
          then show ?thesis by (simp add: load_checkpoint_def ckpt a b)
        next
          case c: (Inr c)
          from Network_call_cases [of a b c draw1 draw2] show ?thesis
          proof (elim disjE conjE exE)
            assume "Network_call a b c draw1 = Inl TypeError"
              "Network_call a b c draw2 = Inl TypeError"
            then show ?thesis by (simp add: load_checkpoint_def ckpt a b c)
          next
            fix i out hs
            assume n: "Network_call a b c draw1 = Inr (Network_init i out hs draw1)"
              "Network_call a b c draw2 = Inr (Network_init i out hs draw2)"
            show ?thesis
            proof (cases "getitem ckpt ''state_dict''")
              case (Inl e)
              then show ?thesis by (simp add: load_checkpoint_def ckpt a b c n)
            next
              case d: (Inr d)
              show ?thesis
              proof (cases d)
                case (PyStateDict sd)
                then show ?thesis
                  using init [of i out hs sd] by (simp add: load_checkpoint_def ckpt a b c n d)
              qed (simp_all add: load_checkpoint_def ckpt a b c n d)
            qed
          qed
        qed
      qed
    qed
  qed
qed

subsection \<open>Loading into another architecture\<close>

lemma loaded_cases:
  "loaded sd kp =
     (fst kp, case map_of sd (fst kp) of
                None \<Rightarrow> snd kp
              | Some st \<Rightarrow> if shape st = shape (snd kp) then st else snd kp)"
  by (simp add: loaded_def load_param_def split: option.splits)

lemma size_errors_cases:
  "size_errors sd kp =
     (case map_of sd (fst kp) of
        None \<Rightarrow> []
      | Some st \<Rightarrow> if shape st \<noteq> shape (snd kp)
                   then [SizeMismatch (fst kp) (shape st) (shape (snd kp))] else [])"
  by (simp add: size_errors_def load_param_def split: option.splits)

lemma missing_cases:
  "missing sd kp = (case map_of sd (fst kp) of None \<Rightarrow> [fst kp] | Some st \<Rightarrow> [])"
  by (simp add: missing_def load_param_def split: option.splits)

lemma size_mismatch_in_msgs:
  "SizeMismatch k s s' \<in> set (load_msgs t sd) \<longleftrightarrow>
     (\<exists>p st. (k, p) \<in> set (state_dict t) \<and> map_of sd k = Some st
        \<and> shape st \<noteq> shape p \<and> s = shape st \<and> s' = shape p)"
proof -
  have one: "SizeMismatch k s s' \<in> set (size_errors sd kp) \<longleftrightarrow>
      (\<exists>st. map_of sd (fst kp) = Some st \<and> shape st \<noteq> shape (snd kp)
         \<and> k = fst kp \<and> s = shape st \<and> s' = shape (snd kp))" for kp
    by (cases "map_of sd (fst kp)") (auto simp: size_errors_cases)
  have "SizeMismatch k s s' \<in> set (load_msgs t sd) \<longleftrightarrow>
      (\<exists>kp\<in>set (state_dict t). SizeMismatch k s s' \<in> set (size_errors sd kp))"
    by (simp add: load_msgs_def)
  also have "\<dots> \<longleftrightarrow> (\<exists>p st. (k, p) \<in> set (state_dict t) \<and> map_of sd k = Some st
        \<and> shape st \<noteq> shape p \<and> s = shape st \<and> s' = shape p)"
    unfolding one by force
  finally show ?thesis .
qed

lemma state_dict_map_of:
  "(k, p) \<in> set (state_dict t) \<Longrightarrow> map_of (state_dict t) k = Some p"
  using distinct_state_dict_keys [of t] by simp

lemma are_layers_length: "are_layers n hs ls \<Longrightarrow> length ls = length hs"
  by (induction n hs ls rule: are_layers.induct) simp_all

lemma are_layers_bias_shape:
  "are_layers n hs ls \<Longrightarrow> j < length hs \<Longrightarrow> shape (bias (ls ! j)) = [hs ! j]"
proof (induction n hs ls arbitrary: j rule: are_layers.induct)
  case (2 n_in h hs l ls)
  then show ?case
    by (cases j) (simp_all add: is_Linear_def wf_tensor_def)
qed simp_all

lemma weight_key_mem:
  "hidden_prefix j @ ''weight'' \<in> set (map fst (state_dict m)) \<longleftrightarrow> j < length (hidden_layers m)"
proof
  assume "hidden_prefix j @ ''weight'' \<in> set (map fst (state_dict m))"
  then have "(\<exists>i<length (hidden_layers m).
                hidden_prefix j @ ''weight'' = hidden_prefix i @ ''weight''
              \<or> hidden_prefix j @ ''weight'' = hidden_prefix i @ ''bias'')
           \<or> hidden_prefix j @ ''weight'' = ''output.weight''
           \<or> hidden_prefix j @ ''weight'' = ''output.bias''"
    unfolding state_dict_keys by auto
  then show "j < length (hidden_layers m)"
    using hidden_prefix_inj [of j "''weight''"] hidden_weight_bias [of j]
      hidden_not_output [of j "''weight''" "''weight''"]
      hidden_not_output [of j "''weight''" "''bias''"]
    by auto
next
  assume "j < length (hidden_layers m)"
  then show "hidden_prefix j @ ''weight'' \<in> set (map fst (state_dict m))"
    unfolding state_dict_keys by auto
qed

lemma other_architecture_msgs:
  assumes m: "has_arch i out A m" and t: "has_arch i out B t" and ne: "B \<noteq> A"
  shows "load_msgs t (state_dict m) \<noteq> []"
proof -
  from m t have am: "are_layers i A (hidden_layers m)" and at: "are_layers i B (hidden_layers t)"
    by (simp_all add: has_arch_def)
  note lm = are_layers_length [OF am] and lt = are_layers_length [OF at]
  consider (same) "length B = length A" | (more) "length A < length B" | (fewer) "length B < length A"
    by linarith
  then show ?thesis
  proof cases
    case same
    with ne obtain j where j: "j < length A" and d: "A ! j \<noteq> B ! j"
      by (metis nth_equalityI)
    let ?k = "hidden_prefix j @ ''bias''"
    have "(?k, bias (hidden_layers t ! j)) \<in> set (state_dict t)"
      using layers_state_member(2) [of j "hidden_layers t" 0] j same lt
      by (simp add: state_dict_def)
    moreover have "map_of (state_dict m) ?k = Some (bias (hidden_layers m ! j))"
      using state_dict_lookup(2) [of j m] j lm by simp
    moreover have "shape (bias (hidden_layers m ! j)) \<noteq> shape (bias (hidden_layers t ! j))"
      using are_layers_bias_shape [OF am j] are_layers_bias_shape [OF at, of j] j same d by simp
    ultimately have "SizeMismatch ?k (shape (bias (hidden_layers m ! j)))
        (shape (bias (hidden_layers t ! j))) \<in> set (load_msgs t (state_dict m))"
      unfolding size_mismatch_in_msgs by blast
    then show ?thesis by auto
  next
    case more
    let ?k = "hidden_prefix (length A) @ ''weight''"
    have "?k \<in> set (map fst (state_dict t))"
      using weight_key_mem [of "length A" t] more lt by simp
    then obtain p where p: "(?k, p) \<in> set (state_dict t)"
      by auto
    have "?k \<notin> set (map fst (state_dict m))"
      using weight_key_mem [of "length A" m] lm by simp
    then have "map_of (state_dict m) ?k = None"
      by (simp add: map_of_eq_None_iff)
    then have "missing (state_dict m) (?k, p) = [?k]"
      by (simp add: missing_cases)
    with p have "concat (map (missing (state_dict m)) (state_dict t)) \<noteq> []"
      by force
    then show ?thesis
      by (simp add: load_msgs_def)
  next
    case fewer
    let ?k = "hidden_prefix (length B) @ ''weight''"
    have "?k \<in> set (map fst (state_dict m))"
      using weight_key_mem [of "length B" m] fewer lm by simp
    moreover have "?k \<notin> set (map fst (state_dict t))"
      using weight_key_mem [of "length B" t] lt by simp
    ultimately have "filter (\<lambda>k. k \<notin> set (map fst (state_dict t))) (map fst (state_dict m)) \<noteq> []"
      by (simp add: filter_empty_conv) force
    then show ?thesis
      by (simp add: load_msgs_def)
  qed
qed

lemma same_depth_msgs:
  assumes m: "has_arch i out A m" and t: "has_arch i out B t" and len: "length B = length A"
  shows "load_msgs t (state_dict m) = concat (map (size_errors (state_dict m)) (state_dict t))"
proof -
  from m t have am: "are_layers i A (hidden_layers m)" and at: "are_layers i B (hidden_layers t)"
    by (simp_all add: has_arch_def)
  have l: "length (hidden_layers t) = length (hidden_layers m)"
    using are_layers_length [OF am] are_layers_length [OF at] len by simp
  then have keys: "map fst (state_dict t) = map fst (state_dict m)"
    by (simp add: state_dict_keys)
  have "map_of (state_dict m) (fst kp) \<noteq> None" if "kp \<in> set (state_dict t)" for kp
  proof -
    from that have "fst kp \<in> set (map fst (state_dict m))"
      unfolding keys [symmetric] by simp
    then show ?thesis
      by (simp add: map_of_eq_None_iff)
  qed
  then have "\<forall>kp\<in>set (state_dict t). missing (state_dict m) kp = []"
    by (auto simp: missing_cases split: option.splits)
  then have "concat (map (missing (state_dict m)) (state_dict t)) = []"
    by simp
  moreover have "filter (\<lambda>k. k \<notin> set (map fst (state_dict t))) (map fst (state_dict m)) = []"
    unfolding keys by simp
  ultimately show ?thesis
    by (simp add: load_msgs_def)
qed

text \<open>
  C2 (as the framework has it).  Loading the state dictionary of a model with hidden
  sizes \<open>A\<close> into a model with the same input and output size and other hidden sizes
  \<open>B\<close> raises \<open>RuntimeError\<close>.  Its messages contain a size mismatch, with the key and
  both shapes, for exactly the parameters whose stored shape differs from the model's;
  when \<open>A\<close> and \<open>B\<close> have the same length there are no other messages (otherwise
  missing or unexpected keys are reported as well).  No tensor is reshaped, truncated
  or padded: after the failed load every parameter of the model is either unchanged
  (no stored tensor, or one of another shape) or the stored tensor (same shape).  The
  load is partial in that sense: parameters whose shapes agree have been overwritten.
\<close>

theorem load_into_other_architecture:
  assumes "has_arch i out A m" and "has_arch i out B t" and "B \<noteq> A"
  shows "\<exists>t' msgs. load_state_dict t (state_dict m) = (t', Inl (RuntimeError msgs))
           \<and> msgs \<noteq> []
           \<and> (\<forall>k s s'. SizeMismatch k s s' \<in> set msgs \<longleftrightarrow>
                 (\<exists>p st. map_of (state_dict t) k = Some p \<and> map_of (state_dict m) k = Some st
                    \<and> shape st \<noteq> shape p \<and> s = shape st \<and> s' = shape p))
           \<and> (length B = length A \<longrightarrow> (\<forall>msg\<in>set msgs. \<exists>k s s'. msg = SizeMismatch k s s'))
           \<and> state_dict t' =
               map (\<lambda>kp. (fst kp,
                          case map_of (state_dict m) (fst kp) of
                            None \<Rightarrow> snd kp
                          | Some st \<Rightarrow> if shape st = shape (snd kp) then st else snd kp))
                 (state_dict t)"
proof -
  let ?sd = "state_dict m"
  obtain t' r where l: "load_state_dict t ?sd = (t', r)"
    by (cases "load_state_dict t ?sd") auto
  note f = load_state_dict_flat [OF l]
  have ne: "load_msgs t ?sd \<noteq> []"
    using other_architecture_msgs [OF assms] .
  then have r: "r = Inl (RuntimeError (load_msgs t ?sd))"
    using f(8) by simp
  have a: "\<forall>k s s'. SizeMismatch k s s' \<in> set (load_msgs t ?sd) \<longleftrightarrow>
                 (\<exists>p st. map_of (state_dict t) k = Some p \<and> map_of ?sd k = Some st
                    \<and> shape st \<noteq> shape p \<and> s = shape st \<and> s' = shape p)"
    unfolding size_mismatch_in_msgs
    using state_dict_map_of [of _ _ t] map_of_SomeD [of "state_dict t"] by blast
  have b: "\<forall>msg\<in>set (load_msgs t ?sd). \<exists>k s s'. msg = SizeMismatch k s s'"
    if "length B = length A"
    unfolding same_depth_msgs [OF assms(1,2) that]
    by (auto simp: size_errors_cases split: option.splits if_splits)
  have c: "state_dict t' =
               map (\<lambda>kp. (fst kp,
                          case map_of ?sd (fst kp) of
                            None \<Rightarrow> snd kp
                          | Some st \<Rightarrow> if shape st = shape (snd kp) then st else snd kp))
                 (state_dict t)"
    unfolding f(1) using loaded_cases [of ?sd] by presburger
  show ?thesis
    using l r ne a b c by blast
qed

lemma has_arch_wide: "has_arch 1 2 [3] wide"
  unfolding wide_def by (rule has_arch_init)

theorem load_into_other_architecture_witness:
  "has_arch 1 2 [1] tiny \<and> has_arch 1 2 [3] wide \<and> [3] \<noteq> [1::nat]
   \<and> length [3::nat] = length [1::nat]
   \<and> (\<exists>t' msgs. load_state_dict wide (state_dict tiny) = (t', Inl (RuntimeError msgs))
         \<and> msgs \<noteq> []
         \<and> (\<forall>msg\<in>set msgs. \<exists>k s s'. msg = SizeMismatch k s s')
         \<and> state_dict t' =
               map (\<lambda>kp. (fst kp,
                          case map_of (state_dict tiny) (fst kp) of
                            None \<Rightarrow> snd kp
                          | Some st \<Rightarrow> if shape st = shape (snd kp) then st else snd kp))
                 (state_dict wide))"
proof -
  have ne: "[3] \<noteq> [1::nat]" and len: "length [3::nat] = length [1::nat]"
    by simp_all
  from load_into_other_architecture [OF has_arch_tiny has_arch_wide ne] len
  have "\<exists>t' msgs. load_state_dict wide (state_dict tiny) = (t', Inl (RuntimeError msgs))
         \<and> msgs \<noteq> []
         \<and> (\<forall>msg\<in>set msgs. \<exists>k s s'. msg = SizeMismatch k s s')
         \<and> state_dict t' =
               map (\<lambda>kp. (fst kp,
                          case map_of (state_dict tiny) (fst kp) of
                            None \<Rightarrow> snd kp
                          | Some st \<Rightarrow> if shape st = shape (snd kp) then st else snd kp))
                 (state_dict wide)"
    by blast
  with has_arch_tiny has_arch_wide ne len show ?thesis
    by blast
qed

text \<open>
  The failed load is not without effect: loading the state dictionary of \<open>tiny\<close>
  (hidden sizes \<open>[1]\<close>) into \<open>wide\<close> (hidden sizes \<open>[3]\<close>) raises the error with
  three size mismatches, and the output bias of \<open>wide\<close>, whose shape agrees, has been
  replaced by that of \<open>tiny\<close>.
\<close>

theorem failed_load_overwrites_matching_parameters:
  "snd (load_state_dict wide (state_dict tiny))
     = Inl (RuntimeError
         [SizeMismatch ''hidden_layers.0.weight'' [1, 1] [3, 1],
          SizeMismatch ''hidden_layers.0.bias'' [1] [3],
          SizeMismatch ''output.weight'' [2, 1] [2, 3]])
   \<and> bias (output wide) = \<lparr>shape = [2], data = [5, 5]\<rparr>
   \<and> bias (output (fst (load_state_dict wide (state_dict tiny)))) = \<lparr>shape = [2], data = [0, 0]\<rparr>"
  by (simp add: load_state_dict_def wide_def Network_init_def Linear_init_def fresh_tensor_def
      state_dict_def Linear_state_def load_Linear_def load_param_def hidden_prefix_def
      str_nat_0 tiny_def five_draw_def Let_def upt_rec)

text \<open>The model of Part 3 is the forward pass of a network with two hidden layers in
  evaluation mode.\<close>

lemma sequential_is_forward:
  "sequential l1 l2 l3 x =
     forward \<lparr>hidden_layers = [l1, l2], output = l3, drop_p = p, training = False\<rparr> keep x"
  by (simp add: sequential_def forward_def dropout_def split: sum.splits)

lemma str_nat_digits: "str_nat (Suc 0) = ''1''" "str_nat (Suc (Suc 0)) = ''2''"
  by code_simp+

text \<open>
  Cell 10 of the notebook, whose recorded \<open>RuntimeError\<close> lists these seven size
  mismatches in this order (\<open>output.bias\<close>, of shape \<open>[10]\<close> on both sides, is the
  only parameter not listed).
\<close>

lemma notebook_cell_10:
  "snd (load_state_dict (Network_init 784 10 [400, 200, 100] draw)
          (state_dict (Network_init 784 10 [512, 256, 128] draw')))
     = Inl (RuntimeError
         [SizeMismatch ''hidden_layers.0.weight'' [512, 784] [400, 784],
          SizeMismatch ''hidden_layers.0.bias'' [512] [400],
          SizeMismatch ''hidden_layers.1.weight'' [256, 512] [200, 400],
          SizeMismatch ''hidden_layers.1.bias'' [256] [200],
          SizeMismatch ''hidden_layers.2.weight'' [128, 256] [100, 200],
          SizeMismatch ''hidden_layers.2.bias'' [128] [100],
          SizeMismatch ''output.weight'' [10, 128] [10, 100]])"
  by (simp add: load_state_dict_def Network_init_def Linear_init_def shape_fresh_tensor
      state_dict_def Linear_state_def load_Linear_def load_param_def hidden_prefix_def
      str_nat_0 str_nat_digits Let_def)

section \<open>Evaluation mode and dropout\<close>

lemma dropout_nth:
  assumes "r < length a" and "c < length (a ! r)"
  shows "dropout p True k a ! r ! c = (if k r c then a ! r ! c / (1 - p) else 0)"
  using assms by (simp add: dropout_def nth_enumerate_eq)

lemma upt_1: "[0..<1] = [0]" and upt_2: "[0..<2] = [0, 1]"
  by (simp_all add: upt_rec)

lemma tiny_keep:
  "forward (train_mode tiny) (\<lambda>l r c. True) [[1]] = Inr [[2 - ln (exp 2 + 1), - ln (exp 2 + 1)]]"
  by (simp add: forward_def train_mode_def tiny_def Linear_call_def affine_row_def relu_def
      dropout_def log_softmax_def upt_1 upt_2 enumerate_simps)

lemma tiny_drop:
  "forward (train_mode tiny) (\<lambda>l r c. False) [[1]] = Inr [[- ln 2, - ln 2]]"
  by (simp add: forward_def train_mode_def tiny_def Linear_call_def affine_row_def relu_def
      dropout_def log_softmax_def upt_1 upt_2 enumerate_simps)

lemma ln_exp2: "ln (exp 2 + 1) \<noteq> ln (2::real)"
proof
  assume "ln (exp 2 + 1) = ln (2::real)"
  moreover have "0 < exp (2::real) + 1"
    by (simp add: add_pos_pos)
  ultimately have "exp (2::real) + 1 = 2"
    by (simp add: ln_inj_iff)
  then have "exp (2::real) = 1" by simp
  then show False by simp
qed

text \<open>
  C9.  In evaluation mode the output of \<open>forward\<close> does not depend on the random
  choices: two calls on the same input give the same result.  In training mode they
  may differ: the network \<open>tiny\<close> (dropout \<open>p = 0.5\<close>) gives different outputs on the
  same input when its hidden activation survives and when it is dropped.  Dropout in
  training mode leaves at every position either zero or the activation divided by
  \<open>1 - p\<close>.  (That each activation is dropped with probability \<open>p\<close>, independently,
  is a statement about the distribution of \<open>keep\<close>, which is not modelled.)
\<close>

theorem evaluation_mode_deterministic:
  "forward (eval_mode m) keep x = forward (eval_mode m) keep' x
   \<and> drop_p tiny = 1 / 2
   \<and> forward (train_mode tiny) (\<lambda>l r c. True) [[1]] \<noteq> forward (train_mode tiny) (\<lambda>l r c. False) [[1]]
   \<and> (\<forall>r c. r < length a \<longrightarrow> c < length (a ! r) \<longrightarrow>
         dropout p True k a ! r ! c = (if k r c then a ! r ! c / (1 - p) else 0))"
proof -
  have "forward (eval_mode m) keep x = forward (eval_mode m) keep' x"
    by (rule forward_eval_cong) simp_all
  moreover have "drop_p tiny = 1 / 2"
    by (simp add: tiny_def)
  moreover have "forward (train_mode tiny) (\<lambda>l r c. True) [[1]]
      \<noteq> forward (train_mode tiny) (\<lambda>l r c. False) [[1]]"
    unfolding tiny_keep tiny_drop using ln_exp2 by simp
  moreover have "\<forall>r c. r < length a \<longrightarrow> c < length (a ! r) \<longrightarrow>
         dropout p True k a ! r ! c = (if k r c then a ! r ! c / (1 - p) else 0)"
    using dropout_nth by blast
  ultimately show ?thesis by blast
qed

theorem evaluation_mode_deterministic_witness:
  "(0::nat) < length [[3::real]] \<and> (0::nat) < length ([[3::real]] ! 0)
   \<and> dropout (1 / 2) True (\<lambda>r c. True) [[3]] ! 0 ! 0 = 6
   \<and> forward (eval_mode tiny) (\<lambda>l r c. True) [[1]] = forward (eval_mode tiny) (\<lambda>l r c. False) [[1]]"
proof -
  have a: "(0::nat) < length [[3::real]]" and b: "(0::nat) < length ([[3::real]] ! 0)"
    by simp_all
  from evaluation_mode_deterministic
    [of tiny "\<lambda>l r c. True" "[[1]]" "\<lambda>l r c. False" "[[3]]" "1 / 2" "\<lambda>r c. True"]
  have "forward (eval_mode tiny) (\<lambda>l r c. True) [[1]] = forward (eval_mode tiny) (\<lambda>l r c. False) [[1]]"
    and "\<forall>r c. r < length [[3::real]] \<longrightarrow> c < length ([[3::real]] ! r) \<longrightarrow>
         dropout (1 / 2) True (\<lambda>r c. True) [[3]] ! r ! c = (if True then [[3]] ! r ! c / (1 - 1 / 2) else 0)"
    by blast+
  with a b show ?thesis
    by simp
qed

section \<open>Properties of gradient accumulation\<close>

lemma map2_zeros: "length a = length g \<Longrightarrow> map2 (+) (map (\<lambda>v. 0) a) g = (g :: real list)"
  by (induction a g rule: list_induct2) simp_all

lemma map2_same: "map2 (+) g g = map (\<lambda>v. v + v) (g :: real list)"
  by (induction g) simp_all

lemma single_pass:
  assumes "grad_fits (dloss (params s) batch) s"
  shows "grad (backward_pass dloss batch (optimizer_zero_grad s)) = Some (dloss (params s) batch)"
    and "params (backward_pass dloss batch (optimizer_zero_grad s)) = params s"
  using assms
  by (auto simp: backward_pass_def loss_backward_def optimizer_zero_grad_def grad_fits_def
      map2_zeros split: option.splits)

lemma second_pass: "grad s1 = Some g1 \<Longrightarrow> grad (loss_backward g2 s1) = Some (map2 (+) g1 g2)"
  by (simp add: loss_backward_def)

lemma doubled_differs: "map (\<lambda>v. v + v) g \<noteq> g \<longleftrightarrow> (\<exists>v\<in>set g. v \<noteq> (0::real))"
  by (induction g) auto

lemma doubled_magnitude: "(\<Sum>v\<leftarrow>map (\<lambda>v. v + v) g. \<bar>v\<bar>) = 2 * (\<Sum>v\<leftarrow>g. \<bar>v :: real\<bar>)"
  by (induction g) simp_all

text \<open>
  C6 (as amended).  Starting from zeroed gradients, two backward passes of the training
  step on the same batch, with no reset in between, leave as gradient the sum of the
  two per-pass gradients, where one pass leaves the per-pass gradient.  The accumulated
  gradient differs from the single-pass one exactly when some entry of the per-pass
  gradient is non-zero; its magnitude (sum of absolute values) is twice as large.
\<close>

theorem gradients_accumulate:
  assumes "grad_fits (dloss (params s) batch) s"
  shows "grad (backward_pass dloss batch (backward_pass dloss batch (optimizer_zero_grad s)))
           = Some (map2 (+) (dloss (params s) batch) (dloss (params s) batch))
       \<and> grad (backward_pass dloss batch (optimizer_zero_grad s)) = Some (dloss (params s) batch)
       \<and> (grad (backward_pass dloss batch (backward_pass dloss batch (optimizer_zero_grad s)))
            \<noteq> grad (backward_pass dloss batch (optimizer_zero_grad s))
          \<longleftrightarrow> (\<exists>v\<in>set (dloss (params s) batch). v \<noteq> 0))
       \<and> (\<Sum>v\<leftarrow>map2 (+) (dloss (params s) batch) (dloss (params s) batch). \<bar>v\<bar>)
            = 2 * (\<Sum>v\<leftarrow>dloss (params s) batch. \<bar>v\<bar>)"
proof -
  let ?g = "dloss (params s) batch"
  let ?s1 = "backward_pass dloss batch (optimizer_zero_grad s)"
  note one = single_pass [where dloss = dloss and s = s and batch = batch, OF assms]
  have two: "grad (backward_pass dloss batch ?s1) = Some (map2 (+) ?g ?g)"
    unfolding backward_pass_def [of dloss batch ?s1] one(2) by (rule second_pass [OF one(1)])
  have "grad (backward_pass dloss batch ?s1) \<noteq> grad ?s1 \<longleftrightarrow> (\<exists>v\<in>set ?g. v \<noteq> 0)"
    unfolding two one(1) using doubled_differs [of ?g] by (simp add: map2_same)
  moreover have "(\<Sum>v\<leftarrow>map2 (+) ?g ?g. \<bar>v\<bar>) = 2 * (\<Sum>v\<leftarrow>?g. \<bar>v\<bar>)"
    using doubled_magnitude [of ?g] by (simp add: map2_same)
  ultimately show ?thesis
    using one(1) two by blast
qed

theorem gradients_accumulate_witness:
  "grad_fits [1, -2] untrained
   \<and> grad (backward_pass (\<lambda>p b. [1, -2]) () (backward_pass (\<lambda>p b. [1, -2]) () (optimizer_zero_grad untrained)))
       = Some [2, -4]
   \<and> grad (backward_pass (\<lambda>p b. [1, -2]) () (optimizer_zero_grad untrained)) = Some [1, -2]"
proof -
  have a: "grad_fits ((\<lambda>p b. [1, -2]) (params untrained) ()) untrained"
    by (simp add: grad_fits_def untrained_def)
  from gradients_accumulate [where dloss = "\<lambda>p b. [1, -2]" and s = untrained and batch = "()", OF a] a
  show ?thesis
    by simp
qed

text \<open>
  When the per-pass gradient is zero, the gradient after two passes is the gradient
  after one: not a different, larger one.
\<close>

theorem zero_gradient_accumulates_to_itself:
  "grad (backward_pass flat_loss () (backward_pass flat_loss () (optimizer_zero_grad untrained)))
     = grad (backward_pass flat_loss () (optimizer_zero_grad untrained))"
  by (simp add: backward_pass_def loss_backward_def optimizer_zero_grad_def untrained_def
      flat_loss_def)

section \<open>Properties of the forward pass in single precision\<close>







end
